theory Spec2Isabelle
  imports Complex_Main "HOL-Library.Log_Nat" "HOL-Library.Product_Lexorder" "HOL-Library.AList"
begin

section \<open>Calendar arithmetic of the JavaScript Date object\<close>

text \<open>
  The analytics view computes with JavaScript \<^verbatim>\<open>Date\<close> objects through the date-fns
  helpers \<^verbatim>\<open>format\<close>, \<^verbatim>\<open>subDays\<close>, \<^verbatim>\<open>subMonths\<close>, \<^verbatim>\<open>subYears\<close>,
  \<^verbatim>\<open>eachDayOfInterval\<close> and \<^verbatim>\<open>eachMonthOfInterval\<close>. A \<^verbatim>\<open>Date\<close> is its time
  value: the milliseconds since 1970-01-01T00:00 UTC, an integer. The local time zone is
  a parameter \<open>tz\<close>, the minutes that local time is ahead of UTC (the negation of
  \<^verbatim>\<open>getTimezoneOffset()\<close>); it is one fixed offset, so daylight-saving changes are
  outside the model. Calendar fields follow the day-number functions of ECMAScript
  (\<^verbatim>\<open>Day\<close>, \<^verbatim>\<open>DaysInYear\<close>, \<^verbatim>\<open>DayFromYear\<close>, \<^verbatim>\<open>YearFromTime\<close>,
  \<^verbatim>\<open>MonthFromTime\<close>, \<^verbatim>\<open>DateFromTime\<close>, \<^verbatim>\<open>MakeDay\<close>). Months are zero-based as
  in \<^verbatim>\<open>getMonth()\<close>; days of the month start at 1.
\<close>

type_synonym jsdate = int

definition msPerDay :: int where
  "msPerDay = 86400000"

definition isLeap :: "int \<Rightarrow> bool" where
  "isLeap y = ((y mod 4 = 0 \<and> y mod 100 \<noteq> 0) \<or> y mod 400 = 0)"

definition daysInYear :: "int \<Rightarrow> int" where
  "daysInYear y = (if isLeap y then 366 else 365)"

definition dayFromYear :: "int \<Rightarrow> int" where
  "dayFromYear y =
     365 * (y - 1970) + (y - 1969) div 4 - (y - 1901) div 100 + (y - 1601) div 400"

definition daysInMonth :: "int \<Rightarrow> int \<Rightarrow> int" where
  "daysInMonth y m =
     (if m = 1 then (if isLeap y then 29 else 28)
      else if m = 3 \<or> m = 5 \<or> m = 8 \<or> m = 10 then 30
      else 31)"

definition daysBeforeMonth :: "int \<Rightarrow> int \<Rightarrow> int" where
  "daysBeforeMonth y m = sum_list (map (daysInMonth y) [0..m - 1])"

text \<open>
  \<^verbatim>\<open>MakeDay(year, month, date)\<close>: the day number of a calendar date; a month outside
  0..11 carries into the year and a day outside the month carries into the next months,
  as \<^verbatim>\<open>setMonth\<close> and \<^verbatim>\<open>setDate\<close> rely on.
\<close>

definition makeDay :: "int \<Rightarrow> int \<Rightarrow> int \<Rightarrow> int" where
  "makeDay y m d =
     (let ym = y + m div 12; mn = m mod 12
      in dayFromYear ym + daysBeforeMonth ym mn + d - 1)"

text \<open>
  \<^verbatim>\<open>YearFromTime\<close>, \<^verbatim>\<open>MonthFromTime\<close> and \<^verbatim>\<open>DateFromTime\<close>, computed by
  walking whole years from 1970 and then whole months from January. \<open>civil n\<close> is the
  (year, month, day of month) of day number \<open>n\<close>.
\<close>

function yearUp :: "int \<Rightarrow> int \<Rightarrow> int \<times> int" where
  "yearUp y n = (if daysInYear y \<le> n then yearUp (y + 1) (n - daysInYear y) else (y, n))"
  by pat_completeness auto
termination
  by (relation "measure (\<lambda>(y, n). nat n)") (auto simp: daysInYear_def split: if_splits)

declare yearUp.simps [simp del]

function yearDown :: "int \<Rightarrow> int \<Rightarrow> int \<times> int" where
  "yearDown y n = (if n < 0 then yearDown (y - 1) (n + daysInYear (y - 1)) else (y, n))"
  by pat_completeness auto
termination
  by (relation "measure (\<lambda>(y, n). nat (- n))") (auto simp: daysInYear_def split: if_splits)

declare yearDown.simps [simp del]

definition yearFromDay :: "int \<Rightarrow> int \<times> int" where
  "yearFromDay n = (if n < 0 then yearDown 1970 n else yearUp 1970 n)"

function monthUp :: "int \<Rightarrow> int \<Rightarrow> int \<Rightarrow> int \<times> int" where
  "monthUp y m n =
     (if m < 11 \<and> daysInMonth y m \<le> n then monthUp y (m + 1) (n - daysInMonth y m)
      else (m, n))"
  by pat_completeness auto
termination
  by (relation "measure (\<lambda>(y, m, n). nat (11 - m))") auto

declare monthUp.simps [simp del]

definition civil :: "int \<Rightarrow> int \<times> int \<times> int" where
  "civil n =
     (case yearFromDay n of (y, k) \<Rightarrow>
        (case monthUp y 0 k of (m, j) \<Rightarrow> (y, m, j + 1)))"

text \<open>The local day number and the time within the local day of a \<^verbatim>\<open>Date\<close>.\<close>

definition localDay :: "int \<Rightarrow> jsdate \<Rightarrow> int" where
  "localDay tz t = (t + tz * 60000) div msPerDay"

definition timeInDay :: "int \<Rightarrow> jsdate \<Rightarrow> int" where
  "timeInDay tz t = (t + tz * 60000) mod msPerDay"

definition fromLocal :: "int \<Rightarrow> int \<Rightarrow> int \<Rightarrow> jsdate" where
  "fromLocal tz day ms = day * msPerDay + ms - tz * 60000"

definition getFullYear :: "int \<Rightarrow> jsdate \<Rightarrow> int" where
  "getFullYear tz t = fst (civil (localDay tz t))"

definition getMonth :: "int \<Rightarrow> jsdate \<Rightarrow> int" where
  "getMonth tz t = fst (snd (civil (localDay tz t)))"

definition getDate :: "int \<Rightarrow> jsdate \<Rightarrow> int" where
  "getDate tz t = snd (snd (civil (localDay tz t)))"

text \<open>The calendar dates that exist: a month 0..11 and a day of that month.\<close>

fun validYMD :: "int \<times> int \<times> int \<Rightarrow> bool" where
  "validYMD (y, m, d) = (0 \<le> m \<and> m \<le> 11 \<and> 1 \<le> d \<and> d \<le> daysInMonth y m)"

section \<open>Properties of the calendar functions\<close>

lemma daysInYear_pos: "365 \<le> daysInYear y"
  by (simp add: daysInYear_def)

lemma daysInMonth_bounds: "28 \<le> daysInMonth y m \<and> daysInMonth y m \<le> 31"
  by (simp add: daysInMonth_def)

lemma daysBeforeMonth_0: "daysBeforeMonth y 0 = 0"
  by (simp add: daysBeforeMonth_def)

lemma daysBeforeMonth_next: "0 \<le> m \<Longrightarrow> daysBeforeMonth y (m + 1) = daysBeforeMonth y m + daysInMonth y m"
  by (simp add: daysBeforeMonth_def upto_rec2)

lemma daysBeforeMonth_12: "daysBeforeMonth y 12 = daysInYear y"
  by (simp add: daysBeforeMonth_def upto_rec1 daysInMonth_def daysInYear_def)

lemma div_succ:
  fixes a k :: int
  assumes "0 < k"
  shows "(a + 1) div k = a div k + (if (a + 1) mod k = 0 then 1 else 0)"
proof -
  have a: "a = k * (a div k) + a mod k" by simp
  have r: "0 \<le> a mod k" "a mod k < k" using assms by simp_all
  show ?thesis
  proof (cases "a mod k + 1 = k")
    case True
    have "a + 1 = k * (a div k + 1)"
      using a True by (metis add.assoc distrib_left mult.right_neutral)
    then have "(a + 1) div k = a div k + 1" "(a + 1) mod k = 0"
      using assms by (metis nonzero_mult_div_cancel_left less_irrefl, metis mod_mult_self1_is_0)
    then show ?thesis by simp
  next
    case False
    then have lt: "a mod k + 1 < k" using r by linarith
    have e: "a + 1 = k * (a div k) + (a mod k + 1)" using a by linarith
    have "(a + 1) div k = a div k"
      by (rule int_div_pos_eq [OF e]) (use r lt in simp_all)
    moreover have "(a + 1) mod k = a mod k + 1"
      by (rule int_mod_pos_eq [OF e]) (use r lt in simp_all)
    ultimately show ?thesis using r by simp
  qed
qed

lemma mod4_shift: "(y - 1968) mod 4 = 0 \<longleftrightarrow> (y::int) mod 4 = 0" by presburger
lemma mod100_shift: "(y - 1900) mod 100 = 0 \<longleftrightarrow> (y::int) mod 100 = 0" by presburger
lemma mod400_shift: "(y - 1600) mod 400 = 0 \<longleftrightarrow> (y::int) mod 400 = 0" by presburger
lemma mod400_100: "(y::int) mod 400 = 0 \<Longrightarrow> y mod 100 = 0" by presburger
lemma mod100_4: "(y::int) mod 100 = 0 \<Longrightarrow> y mod 4 = 0" by presburger

lemma dayFromYear_next: "dayFromYear (y + 1) = dayFromYear y + daysInYear y"
proof -
  have a: "(y + 1 - 1969) div 4 = (y - 1969) div 4 + (if y mod 4 = 0 then 1 else 0)"
    using div_succ [of 4 "y - 1969"] mod4_shift [of y] by (simp add: algebra_simps)
  have b: "(y + 1 - 1901) div 100 = (y - 1901) div 100 + (if y mod 100 = 0 then 1 else 0)"
    using div_succ [of 100 "y - 1901"] mod100_shift [of y] by (simp add: algebra_simps)
  have c: "(y + 1 - 1601) div 400 = (y - 1601) div 400 + (if y mod 400 = 0 then 1 else 0)"
    using div_succ [of 400 "y - 1601"] mod400_shift [of y] by (simp add: algebra_simps)
  show ?thesis
    unfolding dayFromYear_def daysInYear_def isLeap_def a b c
    using mod400_100 [of y] mod100_4 [of y] by auto
qed

lemma yearUp_inv:
  "0 \<le> n \<Longrightarrow> yearUp y n = (y', k) \<Longrightarrow>
     dayFromYear y' + k = dayFromYear y + n \<and> 0 \<le> k \<and> k < daysInYear y'"
proof (induction y n rule: yearUp.induct)
  case (1 y n)
  show ?case
  proof (cases "daysInYear y \<le> n")
    case True
    then have "yearUp (y + 1) (n - daysInYear y) = (y', k)"
      using "1.prems"(2) by (subst (asm) yearUp.simps) simp
    with "1.IH" [OF True] True have
      "dayFromYear y' + k = dayFromYear (y + 1) + (n - daysInYear y) \<and> 0 \<le> k \<and> k < daysInYear y'"
      by simp
    then show ?thesis by (simp add: dayFromYear_next)
  next
    case False
    then have "(y', k) = (y, n)"
      using "1.prems"(2) by (subst (asm) yearUp.simps) simp
    with False "1.prems"(1) show ?thesis by simp
  qed
qed

lemma dayFromYear_prev: "dayFromYear (y - 1) = dayFromYear y - daysInYear (y - 1)"
  using dayFromYear_next [of "y - 1"] by simp

lemma yearDown_inv:
  "n < daysInYear y \<Longrightarrow> yearDown y n = (y', k) \<Longrightarrow>
     dayFromYear y' + k = dayFromYear y + n \<and> 0 \<le> k \<and> k < daysInYear y'"
proof (induction y n rule: yearDown.induct)
  case (1 y n)
  show ?case
  proof (cases "n < 0")
    case True
    then have "yearDown (y - 1) (n + daysInYear (y - 1)) = (y', k)"
      using "1.prems"(2) by (subst (asm) yearDown.simps) simp
    moreover have "n + daysInYear (y - 1) < daysInYear (y - 1)" using True by simp
    ultimately have
      "dayFromYear y' + k = dayFromYear (y - 1) + (n + daysInYear (y - 1)) \<and> 0 \<le> k \<and> k < daysInYear y'"
      using "1.IH" [OF True] by simp
    then show ?thesis by (simp add: dayFromYear_prev)
  next
    case False
    then have "(y', k) = (y, n)"
      using "1.prems"(2) by (subst (asm) yearDown.simps) simp
    with False "1.prems"(1) show ?thesis by simp
  qed
qed

lemma yearFromDay_inv:
  assumes "yearFromDay n = (y, k)"
  shows "dayFromYear y + k = n \<and> 0 \<le> k \<and> k < daysInYear y"
proof (cases "n < 0")
  case True
  then have "yearDown 1970 n = (y, k)" using assms by (simp add: yearFromDay_def)
  moreover have "n < daysInYear 1970" using True daysInYear_pos [of 1970] by linarith
  ultimately show ?thesis using yearDown_inv [of n 1970 y k] by (simp add: dayFromYear_def)
next
  case False
  then have "yearUp 1970 n = (y, k)" using assms by (simp add: yearFromDay_def)
  then show ?thesis using yearUp_inv [of n 1970 y k] False by (simp add: dayFromYear_def)
qed

lemma monthUp_inv:
  "0 \<le> m \<Longrightarrow> m \<le> 11 \<Longrightarrow> 0 \<le> n \<Longrightarrow> daysBeforeMonth y m + n < daysInYear y \<Longrightarrow>
   monthUp y m n = (m', j) \<Longrightarrow>
     daysBeforeMonth y m' + j = daysBeforeMonth y m + n \<and> m \<le> m' \<and> m' \<le> 11 \<and>
     0 \<le> j \<and> j < daysInMonth y m'"
proof (induction y m n rule: monthUp.induct)
  case (1 y m n)
  show ?case
  proof (cases "m < 11 \<and> daysInMonth y m \<le> n")
    case True
    then have r: "monthUp y (m + 1) (n - daysInMonth y m) = (m', j)"
      using "1.prems"(5) by (subst (asm) monthUp.simps) simp
    have "daysBeforeMonth y (m + 1) + (n - daysInMonth y m) < daysInYear y"
      using "1.prems" by (simp add: daysBeforeMonth_next)
    with "1.IH" [OF True] r True "1.prems" have
      "daysBeforeMonth y m' + j = daysBeforeMonth y (m + 1) + (n - daysInMonth y m) \<and>
       m + 1 \<le> m' \<and> m' \<le> 11 \<and> 0 \<le> j \<and> j < daysInMonth y m'"
      by simp
    then show ?thesis using "1.prems" by (simp add: daysBeforeMonth_next)
  next
    case False
    then have e: "m' = m" "j = n"
      using "1.prems"(5) by (subst (asm) monthUp.simps, auto)+
    show ?thesis
    proof (cases "m < 11")
      case True
      with False e "1.prems" show ?thesis by simp
    next
      case False
      then have "m = 11" using "1.prems" by simp
      moreover have "daysBeforeMonth y 11 + 31 = daysInYear y"
        using daysBeforeMonth_12 [of y] daysBeforeMonth_next [of 11 y]
        by (simp add: daysInMonth_def)
      ultimately show ?thesis using e "1.prems" by (simp add: daysInMonth_def)
    qed
  qed
qed

lemma makeDay_in_year:
  "0 \<le> m \<Longrightarrow> m \<le> 11 \<Longrightarrow> makeDay y m d = dayFromYear y + daysBeforeMonth y m + d - 1"
  by (simp add: makeDay_def)

lemma civil_props:
  assumes "civil n = (y, m, d)"
  shows "validYMD (y, m, d)" and "makeDay y m d = n"
proof -
  obtain k where yk: "yearFromDay n = (y, k)"
    using assms by (auto simp: civil_def split: prod.splits)
  then obtain j where mj: "monthUp y 0 k = (m, j)" and d: "d = j + 1"
    using assms by (auto simp: civil_def split: prod.splits)
  from yearFromDay_inv [OF yk] have y: "dayFromYear y + k = n" "0 \<le> k" "k < daysInYear y"
    by simp_all
  from monthUp_inv [of 0 k y m j] mj y have
    m: "daysBeforeMonth y m + j = k" "0 \<le> m" "m \<le> 11" "0 \<le> j" "j < daysInMonth y m"
    by (simp_all add: daysBeforeMonth_0)
  show "validYMD (y, m, d)" using m d by simp
  show "makeDay y m d = n" using m y d by (simp add: makeDay_in_year)
qed

lemma daysBeforeMonth_mono:
  assumes "0 \<le> m" and "m < m'"
  shows "daysBeforeMonth y m + daysInMonth y m \<le> daysBeforeMonth y m'"
  using assms(2)
proof (induct m' rule: int_gr_induct)
  case base
  show ?case using assms(1) by (simp add: daysBeforeMonth_next)
next
  case (step i)
  have "daysBeforeMonth y (i + 1) = daysBeforeMonth y i + daysInMonth y i"
    using step assms(1) by (simp add: daysBeforeMonth_next)
  then show ?case using step daysInMonth_bounds [of y i] by linarith
qed

lemma daysBeforeMonth_nonneg: "0 \<le> m \<Longrightarrow> 0 \<le> daysBeforeMonth y m"
proof (cases "m = 0")
  case True
  then show ?thesis by (simp add: daysBeforeMonth_0)
next
  case False
  assume "0 \<le> m"
  with False have "0 < m" by simp
  from daysBeforeMonth_mono [of 0 m y] this daysInMonth_bounds [of y 0]
  show ?thesis by (simp add: daysBeforeMonth_0)
qed

lemma dayFromYear_mono:
  assumes "y < y'"
  shows "dayFromYear y + daysInYear y \<le> dayFromYear y'"
  using assms
proof (induct y' rule: int_gr_induct)
  case base
  show ?case by (simp add: dayFromYear_next)
next
  case (step i)
  then show ?case using dayFromYear_next [of i] daysInYear_pos [of i] by linarith
qed

lemma makeDay_strict_mono:
  assumes "validYMD (y, m, d)" and "validYMD (y', m', d')" and "(y, m, d) < (y', m', d')"
  shows "makeDay y m d < makeDay y' m' d'"
proof -
  have v: "0 \<le> m" "m \<le> 11" "1 \<le> d" "d \<le> daysInMonth y m"
    "0 \<le> m'" "m' \<le> 11" "1 \<le> d'" "d' \<le> daysInMonth y' m'"
    using assms(1,2) by simp_all
  have e: "makeDay y m d = dayFromYear y + daysBeforeMonth y m + d - 1"
    "makeDay y' m' d' = dayFromYear y' + daysBeforeMonth y' m' + d' - 1"
    using v by (simp_all add: makeDay_in_year)
  consider "y < y'" | "y = y'" "m < m'" | "y = y'" "m = m'" "d < d'"
    using assms(3) unfolding less_prod_def' by auto
  then show ?thesis
  proof cases
    case 1
    have "daysBeforeMonth y m + daysInMonth y m \<le> daysBeforeMonth y 12"
      using daysBeforeMonth_mono [of m 12 y] v by simp
    then have "makeDay y m d < dayFromYear y + daysInYear y"
      using e v by (simp add: daysBeforeMonth_12)
    also have "\<dots> \<le> dayFromYear y'" by (rule dayFromYear_mono [OF 1])
    also have "\<dots> \<le> makeDay y' m' d'"
      using e v daysBeforeMonth_nonneg [of m' y'] by simp
    finally show ?thesis .
  next
    case 2
    then show ?thesis using e v daysBeforeMonth_mono [of m m' y] by simp
  next
    case 3
    then show ?thesis using e by simp
  qed
qed

lemma makeDay_inj:
  assumes "validYMD a" and "validYMD b"
    and "makeDay (fst a) (fst (snd a)) (snd (snd a)) = makeDay (fst b) (fst (snd b)) (snd (snd b))"
  shows "a = b"
proof (rule ccontr)
  assume "a \<noteq> b"
  then consider "a < b" | "b < a" by fastforce
  then show False
  proof cases
    case 1
    then show ?thesis
      using makeDay_strict_mono [of "fst a" "fst (snd a)" "snd (snd a)" "fst b" "fst (snd b)" "snd (snd b)"]
        assms by simp
  next
    case 2
    then show ?thesis
      using makeDay_strict_mono [of "fst b" "fst (snd b)" "snd (snd b)" "fst a" "fst (snd a)" "snd (snd a)"]
        assms by simp
  qed
qed

lemma civil_makeDay:
  assumes "validYMD (y, m, d)"
  shows "civil (makeDay y m d) = (y, m, d)"
proof -
  obtain y2 m2 d2 where c: "civil (makeDay y m d) = (y2, m2, d2)"
    by (metis prod_cases3)
  from civil_props [OF c] have "validYMD (y2, m2, d2)" "makeDay y2 m2 d2 = makeDay y m d"
    by simp_all
  with makeDay_inj [of "(y2, m2, d2)" "(y, m, d)"] assms c show ?thesis by simp
qed

lemma civil_strict_mono:
  assumes "a < b"
  shows "civil a < civil b"
proof (rule ccontr)
  assume n: "\<not> civil a < civil b"
  obtain y m d where ca: "civil a = (y, m, d)" by (metis prod_cases3)
  obtain y' m' d' where cb: "civil b = (y', m', d')" by (metis prod_cases3)
  from n consider "civil b < civil a" | "civil a = civil b" by fastforce
  then show False
  proof cases
    case 1
    then have "makeDay y' m' d' < makeDay y m d"
      using makeDay_strict_mono [of y' m' d' y m d] civil_props(1) [OF ca] civil_props(1) [OF cb]
      by (simp only: ca cb)
    then show ?thesis using civil_props(2) [OF ca] civil_props(2) [OF cb] assms by simp
  next
    case 2
    then show ?thesis using civil_props(2) [OF ca] civil_props(2) [OF cb] assms ca cb by simp
  qed
qed

lemma civil_inj: "civil a = civil b \<Longrightarrow> a = b"
  by (metis civil_strict_mono less_irrefl linorder_neqE_linordered_idom)

section \<open>Date setters and the date-fns helpers\<close>

text \<open>
  The setters of \<^verbatim>\<open>Date\<close> work on the local fields and rebuild the time value with
  \<^verbatim>\<open>MakeDay\<close>, so a day or month out of range carries over.
\<close>

definition setHours0 :: "int \<Rightarrow> jsdate \<Rightarrow> jsdate" where
  "setHours0 tz t = fromLocal tz (localDay tz t) 0"

definition setFullYear :: "int \<Rightarrow> jsdate \<Rightarrow> int \<Rightarrow> int \<Rightarrow> int \<Rightarrow> jsdate" where
  "setFullYear tz t y m d = fromLocal tz (makeDay y m d) (timeInDay tz t)"

definition setMonth2 :: "int \<Rightarrow> jsdate \<Rightarrow> int \<Rightarrow> int \<Rightarrow> jsdate" where
  "setMonth2 tz t m d = setFullYear tz t (getFullYear tz t) m d"

definition setMonth :: "int \<Rightarrow> jsdate \<Rightarrow> int \<Rightarrow> jsdate" where
  "setMonth tz t m = setMonth2 tz t m (getDate tz t)"

definition setDate :: "int \<Rightarrow> jsdate \<Rightarrow> int \<Rightarrow> jsdate" where
  "setDate tz t d = setFullYear tz t (getFullYear tz t) (getMonth tz t) d"

text \<open>
  \<^verbatim>\<open>new Date(s)\<close> for the date-only text \<^verbatim>\<open>yyyy-MM-dd\<close> of the calendar day with
  day number \<open>n\<close>: ECMAScript reads a date-only form as midnight UTC, whatever the
  local zone.
\<close>

definition newDate :: "int \<Rightarrow> jsdate" where
  "newDate n = n * msPerDay"

text \<open>
  \<^verbatim>\<open>format(date, pattern)\<close> prints local fields. The four patterns of the view are a
  datatype, and the printed text is kept as its fields (month 1..12 as \<^verbatim>\<open>MM\<close> and
  \<^verbatim>\<open>MMM\<close> print it), so two texts are equal exactly when the strings are.
\<close>

datatype pattern = Pat_yyyy_MM_dd | Pat_yyyy_MM | Pat_MMM_dd | Pat_MMM_yyyy

datatype formatted =
    Txt_yyyy_MM_dd int int int
  | Txt_yyyy_MM int int
  | Txt_MMM_dd int int
  | Txt_MMM_yyyy int int

definition format :: "int \<Rightarrow> jsdate \<Rightarrow> pattern \<Rightarrow> formatted" where
  "format tz t p =
     (case civil (localDay tz t) of (y, m, d) \<Rightarrow>
        (case p of
           Pat_yyyy_MM_dd \<Rightarrow> Txt_yyyy_MM_dd y (m + 1) d
         | Pat_yyyy_MM \<Rightarrow> Txt_yyyy_MM y (m + 1)
         | Pat_MMM_dd \<Rightarrow> Txt_MMM_dd (m + 1) d
         | Pat_MMM_yyyy \<Rightarrow> Txt_MMM_yyyy (m + 1) y))"

text \<open>\<^verbatim>\<open>addDays\<close>: \<^verbatim>\<open>date.setDate(date.getDate() + amount)\<close>.\<close>

definition addDays :: "int \<Rightarrow> jsdate \<Rightarrow> int \<Rightarrow> jsdate" where
  "addDays tz t amount = setDate tz t (getDate tz t + amount)"

definition subDays :: "int \<Rightarrow> jsdate \<Rightarrow> int \<Rightarrow> jsdate" where
  "subDays tz t amount = addDays tz t (- amount)"

text \<open>
  \<^verbatim>\<open>addMonths\<close>: day 0 of the month after the desired one is the last day of the
  desired month; the day of the month is kept unless the desired month is shorter.
\<close>

definition addMonths :: "int \<Rightarrow> jsdate \<Rightarrow> int \<Rightarrow> jsdate" where
  "addMonths tz t amount =
     (let dayOfMonth = getDate tz t;
          endOfDesiredMonth = setMonth2 tz t (getMonth tz t + amount + 1) 0;
          daysInMonth = getDate tz endOfDesiredMonth
      in if dayOfMonth \<ge> daysInMonth then endOfDesiredMonth
         else setFullYear tz t (getFullYear tz endOfDesiredMonth)
                (getMonth tz endOfDesiredMonth) dayOfMonth)"

definition subMonths :: "int \<Rightarrow> jsdate \<Rightarrow> int \<Rightarrow> jsdate" where
  "subMonths tz t amount = addMonths tz t (- amount)"

definition addYears :: "int \<Rightarrow> jsdate \<Rightarrow> int \<Rightarrow> jsdate" where
  "addYears tz t amount = addMonths tz t (amount * 12)"

definition subYears :: "int \<Rightarrow> jsdate \<Rightarrow> int \<Rightarrow> jsdate" where
  "subYears tz t amount = addYears tz t (- amount)"

lemma msPerDay_pos: "0 < msPerDay"
  by (simp add: msPerDay_def)

lemma local_split: "fromLocal tz (localDay tz t) (timeInDay tz t) = t"
  by (simp add: fromLocal_def localDay_def timeInDay_def)

lemma localDay_fromLocal:
  "0 \<le> ms \<Longrightarrow> ms < msPerDay \<Longrightarrow> localDay tz (fromLocal tz n ms) = n"
  by (simp add: fromLocal_def localDay_def msPerDay_def)

lemma timeInDay_fromLocal:
  "0 \<le> ms \<Longrightarrow> ms < msPerDay \<Longrightarrow> timeInDay tz (fromLocal tz n ms) = ms"
  by (simp add: fromLocal_def timeInDay_def msPerDay_def)

lemma timeInDay_range: "0 \<le> timeInDay tz t \<and> timeInDay tz t < msPerDay"
  by (simp add: timeInDay_def msPerDay_def)

lemma civil_fields:
  "civil (localDay tz t) = (getFullYear tz t, getMonth tz t, getDate tz t)"
  by (simp add: getFullYear_def getMonth_def getDate_def)

lemma makeDay_fields: "makeDay (getFullYear tz t) (getMonth tz t) (getDate tz t) = localDay tz t"
  using civil_props(2) [OF civil_fields] .

lemma makeDay_day_shift: "makeDay y m (d + k) = makeDay y m d + k"
  by (simp add: makeDay_def Let_def)

lemma addDays_eq: "addDays tz t k = t + k * msPerDay"
proof -
  have "makeDay (getFullYear tz t) (getMonth tz t) (getDate tz t + k) = localDay tz t + k"
    by (simp add: makeDay_day_shift makeDay_fields)
  then have "addDays tz t k = fromLocal tz (localDay tz t + k) (timeInDay tz t)"
    by (simp add: addDays_def setDate_def setFullYear_def)
  also have "\<dots> = fromLocal tz (localDay tz t) (timeInDay tz t) + k * msPerDay"
    by (simp add: fromLocal_def algebra_simps)
  finally show ?thesis by (simp add: local_split)
qed

text \<open>
  Modelled from the spec: date-fns is a dependency and is not under src/. The loops below
  follow its \<^verbatim>\<open>eachDayOfInterval\<close> and \<^verbatim>\<open>eachMonthOfInterval\<close>; that an interval
  whose start is after its end is refused with an error is taken from the specification's
  \<^verbatim>\<open>InvalidRange\<close> condition (the \<^verbatim>\<open>RangeError\<close> of date-fns 2).
\<close>

datatype js_error = RangeError | TypeError

lemma setHours0_le: "setHours0 tz t \<le> t"
proof -
  have "setHours0 tz t = t - timeInDay tz t"
    using local_split [of tz t] by (simp add: setHours0_def fromLocal_def)
  then show ?thesis using timeInDay_range [of tz t] by simp
qed

lemma setHours0_gt: "t < setHours0 tz t + msPerDay"
proof -
  have "setHours0 tz t = t - timeInDay tz t"
    using local_split [of tz t] by (simp add: setHours0_def fromLocal_def)
  then show ?thesis using timeInDay_range [of tz t] by simp
qed

lemma localDay_add_days: "localDay tz (t + k * msPerDay) = localDay tz t + k"
  by (simp add: localDay_def msPerDay_def add.commute add.left_commute)

lemma setHours0_add_day: "setHours0 tz (addDays tz t 1) = setHours0 tz t + msPerDay"
  using localDay_add_days [of tz t 1]
  by (simp add: addDays_eq setHours0_def fromLocal_def algebra_simps)

lemma next_day_gt: "t < setHours0 tz (addDays tz t 1)"
  using setHours0_gt [of t tz] by (simp add: setHours0_add_day)

function dayLoop :: "int \<Rightarrow> jsdate \<Rightarrow> jsdate \<Rightarrow> jsdate list" where
  "dayLoop tz currentDate endTime =
     (if currentDate \<le> endTime
      then currentDate # dayLoop tz (setHours0 tz (addDays tz currentDate 1)) endTime
      else [])"
  by pat_completeness auto
termination
proof (relation "measure (\<lambda>(tz, currentDate, endTime). nat (endTime + 1 - currentDate))")
  show "wf (measure (\<lambda>(tz, currentDate, endTime). nat (endTime + 1 - currentDate)))"
    by simp
next
  fix tz currentDate endTime :: int
  assume "currentDate \<le> endTime"
  then show "((tz, setHours0 tz (addDays tz currentDate 1), endTime), (tz, currentDate, endTime))
      \<in> measure (\<lambda>(tz, currentDate, endTime). nat (endTime + 1 - currentDate))"
    using next_day_gt [of currentDate tz] by simp
qed

declare dayLoop.simps [simp del]

definition eachDayOfInterval :: "int \<Rightarrow> jsdate \<Rightarrow> jsdate \<Rightarrow> js_error + jsdate list" where
  "eachDayOfInterval tz start end =
     (if \<not> start \<le> end then Inl RangeError
      else Inr (dayLoop tz (setHours0 tz start) end))"

lemma getMonth_range: "0 \<le> getMonth tz t \<and> getMonth tz t \<le> 11"
  using civil_props(1) [OF civil_fields, of tz t] by simp

lemma getDate_range: "1 \<le> getDate tz t \<and> getDate tz t \<le> daysInMonth (getFullYear tz t) (getMonth tz t)"
  using civil_props(1) [OF civil_fields, of tz t] by simp

lemma makeDay_month_next:
  assumes "0 \<le> m" and "m \<le> 11"
  shows "makeDay y (m + 1) d = makeDay y m d + daysInMonth y m"
proof (cases "m = 11")
  case True
  have "makeDay y 12 d = dayFromYear (y + 1) + d - 1"
    by (simp add: makeDay_def daysBeforeMonth_0)
  moreover have "makeDay y 11 d = dayFromYear y + daysBeforeMonth y 11 + d - 1"
    by (simp add: makeDay_in_year)
  moreover have "daysBeforeMonth y 11 + daysInMonth y 11 = daysInYear y"
    using daysBeforeMonth_next [of 11 y] by (simp add: daysBeforeMonth_12)
  ultimately show ?thesis using True by (simp add: dayFromYear_next)
next
  case False
  then have "m + 1 \<le> 11" using assms by simp
  then show ?thesis using assms by (simp add: makeDay_in_year daysBeforeMonth_next)
qed

lemma setMonth_next: "setMonth tz t (getMonth tz t + 1)
    = t + daysInMonth (getFullYear tz t) (getMonth tz t) * msPerDay"
proof -
  let ?y = "getFullYear tz t" and ?m = "getMonth tz t" and ?d = "getDate tz t"
  have "makeDay ?y (?m + 1) ?d = localDay tz t + daysInMonth ?y ?m"
    using makeDay_month_next [of ?m ?y ?d] getMonth_range [of tz t] by (simp add: makeDay_fields)
  then have "setMonth tz t (?m + 1)
      = fromLocal tz (localDay tz t + daysInMonth ?y ?m) (timeInDay tz t)"
    by (simp add: setMonth_def setMonth2_def setFullYear_def)
  also have "\<dots> = fromLocal tz (localDay tz t) (timeInDay tz t) + daysInMonth ?y ?m * msPerDay"
    by (simp add: fromLocal_def algebra_simps)
  finally show ?thesis by (simp add: local_split)
qed

lemma next_month_gt: "t < setMonth tz t (getMonth tz t + 1)"
proof -
  have "0 < daysInMonth (getFullYear tz t) (getMonth tz t) * msPerDay"
    using daysInMonth_bounds [of "getFullYear tz t" "getMonth tz t"] msPerDay_pos by simp
  then show ?thesis by (simp add: setMonth_next)
qed

function monthLoop :: "int \<Rightarrow> jsdate \<Rightarrow> jsdate \<Rightarrow> jsdate list" where
  "monthLoop tz currentDate endTime =
     (if currentDate \<le> endTime
      then currentDate # monthLoop tz (setMonth tz currentDate (getMonth tz currentDate + 1)) endTime
      else [])"
  by pat_completeness auto
termination
proof (relation "measure (\<lambda>(tz, currentDate, endTime). nat (endTime + 1 - currentDate))")
  show "wf (measure (\<lambda>(tz, currentDate, endTime). nat (endTime + 1 - currentDate)))"
    by simp
next
  fix tz currentDate endTime :: int
  assume "currentDate \<le> endTime"
  then show "((tz, setMonth tz currentDate (getMonth tz currentDate + 1), endTime),
       (tz, currentDate, endTime))
      \<in> measure (\<lambda>(tz, currentDate, endTime). nat (endTime + 1 - currentDate))"
    using next_month_gt [of currentDate tz] by simp
qed

declare monthLoop.simps [simp del]

definition eachMonthOfInterval :: "int \<Rightarrow> jsdate \<Rightarrow> jsdate \<Rightarrow> js_error + jsdate list" where
  "eachMonthOfInterval tz start end =
     (if \<not> start \<le> end then Inl RangeError
      else Inr (monthLoop tz (setDate tz (setHours0 tz start) 1) end))"

section \<open>The data store and its client\<close>

text \<open>
  The tables of the migration. Decimal columns are counted in hundredths
  (\<^verbatim>\<open>weight_kg DECIMAL(5,2)\<close>, \<^verbatim>\<open>effort DECIMAL(8,2)\<close>), so 80 kg is 8000 and an effort of
  800 is 80000; a row of a read carries them as the store holds them, and the client
  turns them into JavaScript numbers where it uses them. A \<^verbatim>\<open>DATE\<close> is its day number;
  \<open>dateText\<close> is the text \<^verbatim>\<open>yyyy-MM-dd\<close> the client receives for it. \<^verbatim>\<open>effort\<close> is the
  generated column \<^verbatim>\<open>weight_kg * reps\<close>.
\<close>

record exercise =
  ex_id :: string
  ex_name :: string
  ex_group_id :: string

record workout_entry =
  we_exercise_id :: string
  we_weight_kg :: int
  we_reps :: int
  we_workout_date :: int

record store =
  tbl_exercises :: "exercise list"
  tbl_workout_entries :: "workout_entry list"

text \<open>
  A row of a \<^verbatim>\<open>workout_entries\<close> read, with the embedded \<^verbatim>\<open>exercises\<close> relation
  (\<open>None\<close> when it is null).
\<close>

record entry_row =
  workout_date :: int
  effort :: int
  weight_kg :: int
  reps :: int
  exercises :: "exercise option"

definition dateText :: "int \<Rightarrow> formatted" where
  "dateText n = (case civil n of (y, m, d) \<Rightarrow> Txt_yyyy_MM_dd y (m + 1) d)"

text \<open>
  The filters of the query builder that the analytics views chain on
  \<^verbatim>\<open>from("workout_entries")\<close>: \<^verbatim>\<open>eq("exercise_id", x)\<close>, \<^verbatim>\<open>in("exercise_id", xs)\<close>,
  \<^verbatim>\<open>eq("exercises.group_id", g)\<close> on an inner join, \<^verbatim>\<open>gte\<close> and \<^verbatim>\<open>lte\<close> on
  \<^verbatim>\<open>workout_date\<close>; \<open>order_workout_date\<close> is \<^verbatim>\<open>order("workout_date")\<close>.
\<close>

datatype filter =
    Eq_exercise_id string
  | In_exercise_id "string list"
  | Eq_exercises_group_id string
  | Gte_workout_date formatted
  | Lte_workout_date formatted

record query =
  filters :: "filter list"
  order_workout_date :: bool

datatype request = ExercisesOfGroup string | WorkoutEntries query

datatype pg_error = PostgrestError string

text \<open>
  The data access collaborator: what a read answers, an error or rows. The view only
  sees this interface, so a failing read is any \<open>db\<close> that answers \<open>Inl\<close>.
\<close>

record db =
  selectExercises :: "string \<Rightarrow> pg_error + exercise list"
  selectEntries :: "query \<Rightarrow> pg_error + entry_row list"

text \<open>A store that answers every read from its tables.\<close>

fun parseDate :: "formatted \<Rightarrow> int option" where
  "parseDate (Txt_yyyy_MM_dd y m d) =
     (if validYMD (y, m - 1, d) then Some (makeDay y (m - 1) d) else None)"
| "parseDate _ = None"

fun filterOk :: "filter \<Rightarrow> bool" where
  "filterOk (Gte_workout_date s) = (parseDate s \<noteq> None)"
| "filterOk (Lte_workout_date s) = (parseDate s \<noteq> None)"
| "filterOk _ = True"

fun satisfies :: "store \<Rightarrow> workout_entry \<Rightarrow> filter \<Rightarrow> bool" where
  "satisfies s e (Eq_exercise_id x) = (we_exercise_id e = x)"
| "satisfies s e (In_exercise_id xs) = (we_exercise_id e \<in> set xs)"
| "satisfies s e (Eq_exercises_group_id g) =
     list_ex (\<lambda>ex. ex_id ex = we_exercise_id e \<and> ex_group_id ex = g) (tbl_exercises s)"
| "satisfies s e (Gte_workout_date t) =
     (case parseDate t of Some n \<Rightarrow> n \<le> we_workout_date e | None \<Rightarrow> False)"
| "satisfies s e (Lte_workout_date t) =
     (case parseDate t of Some n \<Rightarrow> we_workout_date e \<le> n | None \<Rightarrow> False)"

definition rowOf :: "store \<Rightarrow> workout_entry \<Rightarrow> entry_row" where
  "rowOf s e =
     \<lparr>workout_date = we_workout_date e,
      effort = we_weight_kg e * we_reps e,
      weight_kg = we_weight_kg e,
      reps = we_reps e,
      exercises = find (\<lambda>ex. ex_id ex = we_exercise_id e) (tbl_exercises s)\<rparr>"

definition runQuery :: "store \<Rightarrow> query \<Rightarrow> pg_error + entry_row list" where
  "runQuery s q =
     (if \<not> list_all filterOk (filters q)
      then Inl (PostgrestError ''invalid input syntax for type date'')
      else let rows = map (rowOf s)
                 (filter (\<lambda>e. list_all (satisfies s e) (filters q)) (tbl_workout_entries s))
           in Inr (if order_workout_date q then sort_key workout_date rows else rows))"

definition storeDb :: "store \<Rightarrow> db" where
  "storeDb s =
     \<lparr>selectExercises = (\<lambda>g. Inr (filter (\<lambda>ex. ex_group_id ex = g) (tbl_exercises s))),
      selectEntries = runQuery s\<rparr>"

section \<open>JavaScript numbers\<close>

text \<open>
  A JavaScript number is an IEEE 754 binary64 value: not-a-number, the two infinities,
  the negative zero, or a finite value, kept here as the rational it denotes
  (\<open>Fin 0\<close> is the positive zero). \<open>fl\<close> rounds a rational to the nearest binary64
  value, ties to the even significand: the significand has 53 bits, the least exponent
  of a unit in the last place is \<open>-1074\<close> (subnormal numbers), and what rounds to
  \<open>2 ^ 1024\<close> or more is an infinity. \<open>pow2 e\<close> is the power \<open>2 ^ e\<close> for an integer
  \<open>e\<close>, and \<open>ilog2 a\<close> the binary exponent of a positive rational, the \<open>k\<close> with
  \<open>2 ^ k \<le> a < 2 ^ (k + 1)\<close>.
\<close>

datatype number = NaN | PosInf | NegInf | NegZero | Fin rat

definition pow2 :: "int \<Rightarrow> rat" where
  "pow2 e = (if 0 \<le> e then of_int (2 ^ nat e) else 1 / of_int (2 ^ nat (- e)))"

definition ilog2 :: "rat \<Rightarrow> int" where
  "ilog2 a =
     (case quotient_of a of (n, d) \<Rightarrow>
        let k = bitlen n - bitlen d in if pow2 k \<le> a then k else k - 1)"

definition roundHalfEven :: "rat \<Rightarrow> int" where
  "roundHalfEven x =
     (let f = \<lfloor>x\<rfloor>; r = x - of_int f
      in if r < 1 / 2 then f else if 1 / 2 < r then f + 1 else if even f then f else f + 1)"

definition fl :: "rat \<Rightarrow> number" where
  "fl q =
     (if q = 0 then Fin 0
      else
        let a = \<bar>q\<bar>;
            e = max (ilog2 a - 52) (- 1074);
            m = roundHalfEven (a / pow2 e);
            r = of_int m * pow2 e
        in if pow2 1024 \<le> r then (if q < 0 then NegInf else PosInf)
           else if m = 0 then (if q < 0 then NegZero else Fin 0)
           else Fin (if q < 0 then - r else r))"

text \<open>The operators \<^verbatim>\<open>+\<close> and \<^verbatim>\<open>*\<close> on two numbers.\<close>

fun fadd :: "number \<Rightarrow> number \<Rightarrow> number" where
  "fadd NaN _ = NaN"
| "fadd _ NaN = NaN"
| "fadd PosInf NegInf = NaN"
| "fadd NegInf PosInf = NaN"
| "fadd PosInf _ = PosInf"
| "fadd _ PosInf = PosInf"
| "fadd NegInf _ = NegInf"
| "fadd _ NegInf = NegInf"
| "fadd NegZero y = y"
| "fadd x NegZero = x"
| "fadd (Fin a) (Fin b) = fl (a + b)"

definition negative :: "number \<Rightarrow> bool" where
  "negative x = (case x of NegInf \<Rightarrow> True | NegZero \<Rightarrow> True | Fin a \<Rightarrow> a < 0 | _ \<Rightarrow> False)"

definition isZero :: "number \<Rightarrow> bool" where
  "isZero x = (x = Fin 0 \<or> x = NegZero)"

definition isInfinite :: "number \<Rightarrow> bool" where
  "isInfinite x = (x = PosInf \<or> x = NegInf)"

definition finiteValue :: "number \<Rightarrow> rat" where
  "finiteValue x = (case x of Fin a \<Rightarrow> a | _ \<Rightarrow> 0)"

definition fmul :: "number \<Rightarrow> number \<Rightarrow> number" where
  "fmul x y =
     (if x = NaN \<or> y = NaN then NaN
      else if (isInfinite x \<and> isZero y) \<or> (isZero x \<and> isInfinite y) then NaN
      else if isInfinite x \<or> isInfinite y
        then (if negative x \<noteq> negative y then NegInf else PosInf)
      else if isZero x \<or> isZero y
        then (if negative x \<noteq> negative y then NegZero else Fin 0)
      else fl (finiteValue x * finiteValue y))"

text \<open>
  The number the client holds for a decimal column counted in hundredths and for an
  integer column: the response is JSON, and \<^verbatim>\<open>JSON.parse\<close> rounds the decimal text to
  the nearest number.
\<close>

definition decimal :: "int \<Rightarrow> number" where
  "decimal h = fl (of_int h / 100)"

definition integerNum :: "int \<Rightarrow> number" where
  "integerNum n = fl (of_int n)"

text \<open>
  \<^verbatim>\<open>parseFloat(x.toString())\<close>: the text of a number is the shortest decimal that reads
  back as the same number, so only the negative zero, whose text is \<^verbatim>\<open>"0"\<close>, changes.
  \<open>falsy\<close> are the numbers that \<^verbatim>\<open>||\<close> and \<^verbatim>\<open>!\<close> take for false.
\<close>

definition reparse :: "number \<Rightarrow> number" where
  "reparse x = (if x = NegZero then Fin 0 else x)"

definition falsy :: "number \<Rightarrow> bool" where
  "falsy x = (x = Fin 0 \<or> x = NegZero \<or> x = NaN)"

section \<open>JavaScript objects\<close>

text \<open>
  The values the chart records hold: numbers and strings. A string is either a date text
  or label, or the concatenation \<open>Cat v x\<close> that \<^verbatim>\<open>v + x\<close> yields when \<open>v\<close> is not a
  number and \<open>x\<close> is one (the text of \<open>v\<close> followed by the text of \<open>x\<close>). Reading a
  property that an object does not have itself gives \<open>Undefined\<close>, or what
  \<^verbatim>\<open>Object.prototype\<close> has under that name: one of its built-in functions, or under
  \<^verbatim>\<open>__proto__\<close> the prototype itself.
\<close>

datatype jsval =
    Undefined
  | Num number
  | Str formatted
  | Cat jsval number
  | Builtin string
  | ObjectPrototype

text \<open>
  An ordinary object created by an object literal: its own properties in the order of
  their creation. Assigning to an existing key replaces the value in place; assigning a
  number or string to \<^verbatim>\<open>__proto__\<close> runs the setter of \<^verbatim>\<open>Object.prototype\<close>, which
  ignores a value that is neither an object nor null, so no property is created.
  \<^verbatim>\<open>Object.keys\<close> and the spread list the keys that are array indices (canonical decimal
  numerals below \<open>2 ^ 32 - 1\<close>) first, in ascending numeric order, then the other keys in
  order of creation.
\<close>

type_synonym object = "(string \<times> jsval) list"

definition objectPrototype :: "string list" where
  "objectPrototype =
     [''constructor'', ''__defineGetter__'', ''__defineSetter__'', ''hasOwnProperty'',
      ''__lookupGetter__'', ''__lookupSetter__'', ''isPrototypeOf'', ''propertyIsEnumerable'',
      ''toString'', ''valueOf'', ''toLocaleString'']"

definition getProp :: "object \<Rightarrow> string \<Rightarrow> jsval" where
  "getProp obj key =
     (case map_of obj key of
        Some v \<Rightarrow> v
      | None \<Rightarrow>
          if key = ''__proto__'' then ObjectPrototype
          else if key \<in> set objectPrototype then Builtin key
          else Undefined)"

definition setProp :: "string \<Rightarrow> jsval \<Rightarrow> object \<Rightarrow> object" where
  "setProp key v obj = (if key = ''__proto__'' then obj else AList.update key v obj)"

definition isDigit :: "char \<Rightarrow> bool" where
  "isDigit c = (c \<in> set ''0123456789'')"

definition digitsValue :: "string \<Rightarrow> int" where
  "digitsValue s = foldl (\<lambda>n c. 10 * n + (of_char c - 48)) 0 s"

definition isArrayIndex :: "string \<Rightarrow> bool" where
  "isArrayIndex s =
     (s \<noteq> [] \<and> list_all isDigit s \<and> (hd s \<noteq> CHR ''0'' \<or> s = ''0'') \<and>
      digitsValue s < 2 ^ 32 - 1)"

definition keyOrder :: "string list \<Rightarrow> string list" where
  "keyOrder ks =
     sort_key digitsValue (filter isArrayIndex ks) @ filter (\<lambda>k. \<not> isArrayIndex k) ks"

definition ownKeys :: "object \<Rightarrow> string list" where
  "ownKeys obj = keyOrder (map fst obj)"



section \<open>The analytics view with view modes\<close>

text \<open>
  The first \<^verbatim>\<open>Analytics\<close> component: a scope (one exercise or one group), a view mode
  and an Analyze button. Its React state is a record; the notifications shown and the
  reads sent are logged in \<open>toasts\<close> and \<open>requests\<close> so that they can be observed.
  The current moment \<^verbatim>\<open>new Date()\<close> is the parameter \<open>now\<close>. A chart record is a
  JavaScript object.
\<close>

datatype ViewMode = Week | Month | Year

record interval =
  date :: formatted
  dateValue :: formatted

type_synonym chart_record = object

datatype toast = Toast (title: string) (description: string) (variant: string)

record analytics =
  selectedExercise :: string
  selectedGroup :: string
  viewMode :: ViewMode
  chartData :: "chart_record list"
  loading :: bool
  toasts :: "toast list"
  requests :: "request list"

definition initialAnalytics :: analytics where
  "initialAnalytics =
     \<lparr>selectedExercise = '''', selectedGroup = '''', viewMode = Week, chartData = [],
      loading = False, toasts = [], requests = []\<rparr>"

definition getDateRange :: "ViewMode \<Rightarrow> int \<Rightarrow> jsdate \<Rightarrow> jsdate \<times> jsdate" where
  "getDateRange mode tz now =
     (case mode of
        Week \<Rightarrow> (subDays tz now 7, now)
      | Month \<Rightarrow> (subMonths tz now 1, now)
      | Year \<Rightarrow> (subYears tz now 1, now))"

definition dayInterval :: "int \<Rightarrow> jsdate \<Rightarrow> interval" where
  "dayInterval tz d = \<lparr>date = format tz d Pat_MMM_dd, dateValue = format tz d Pat_yyyy_MM_dd\<rparr>"

definition monthInterval :: "int \<Rightarrow> jsdate \<Rightarrow> interval" where
  "monthInterval tz d = \<lparr>date = format tz d Pat_MMM_yyyy, dateValue = format tz d Pat_yyyy_MM\<rparr>"

definition generateDateIntervals ::
  "ViewMode \<Rightarrow> int \<Rightarrow> jsdate \<Rightarrow> jsdate \<Rightarrow> js_error + interval list" where
  "generateDateIntervals mode tz start end =
     (case mode of
        Week \<Rightarrow> (case eachDayOfInterval tz start end of
                   Inl e \<Rightarrow> Inl e | Inr ds \<Rightarrow> Inr (map (dayInterval tz) ds))
      | Month \<Rightarrow> (case eachDayOfInterval tz start end of
                   Inl e \<Rightarrow> Inl e | Inr ds \<Rightarrow> Inr (map (dayInterval tz) ds))
      | Year \<Rightarrow> (case eachMonthOfInterval tz start end of
                   Inl e \<Rightarrow> Inl e | Inr ds \<Rightarrow> Inr (map (monthInterval tz) ds)))"

text \<open>The filter callback of both fetches: which entries belong to a bucket.\<close>

definition entryMatches :: "ViewMode \<Rightarrow> int \<Rightarrow> interval \<Rightarrow> entry_row \<Rightarrow> bool" where
  "entryMatches mode tz i entry =
     (if mode = Year
      then format tz (newDate (workout_date entry)) Pat_yyyy_MM = dateValue i
      else dateText (workout_date entry) = dateValue i)"

text \<open>\<^verbatim>\<open>rows.reduce((sum, entry) => sum + parseFloat(entry.effort.toString()), 0) || 0\<close>\<close>

definition orZero :: "number \<Rightarrow> number" where
  "orZero x = (if falsy x then Fin 0 else x)"

definition totalEffort :: "entry_row list \<Rightarrow> number" where
  "totalEffort rows =
     orZero (foldl (\<lambda>sum entry. fadd sum (reparse (decimal (effort entry)))) (Fin 0) rows)"

definition singleRecord :: "ViewMode \<Rightarrow> int \<Rightarrow> entry_row list \<Rightarrow> interval \<Rightarrow> chart_record" where
  "singleRecord mode tz data i =
     (let dayData = filter (entryMatches mode tz i) data
      in [(''date'', Str (date i)), (''effort'', Num (totalEffort dayData))])"

definition failedToast :: "string \<Rightarrow> toast" where
  "failedToast msg = Toast ''Error'' msg ''destructive''"

definition windowFilters :: "int \<Rightarrow> jsdate \<Rightarrow> jsdate \<Rightarrow> filter list" where
  "windowFilters tz start end =
     [Gte_workout_date (format tz start Pat_yyyy_MM_dd),
      Lte_workout_date (format tz end Pat_yyyy_MM_dd)]"

definition fetchSingleExerciseData ::
  "int \<Rightarrow> jsdate \<Rightarrow> db \<Rightarrow> analytics \<Rightarrow> js_error + analytics" where
  "fetchSingleExerciseData tz now db st =
     (if selectedExercise st = '''' then Inr st
      else
        let (start, end) = getDateRange (viewMode st) tz now;
            q = \<lparr>filters = Eq_exercise_id (selectedExercise st) # windowFilters tz start end,
                 order_workout_date = True\<rparr>;
            st1 = st\<lparr>loading := True, requests := requests st @ [WorkoutEntries q]\<rparr>
        in case selectEntries db q of
             Inl error \<Rightarrow>
               Inr (st1\<lparr>toasts := toasts st1 @ [failedToast ''Failed to load workout data''],
                        loading := False\<rparr>)
           | Inr data \<Rightarrow>
               (case generateDateIntervals (viewMode st) tz start end of
                  Inl e \<Rightarrow> Inl e
                | Inr intervals \<Rightarrow>
                    Inr (st1\<lparr>chartData := map (singleRecord (viewMode st) tz data) intervals,
                             loading := False\<rparr>)))"

text \<open>
  \<^verbatim>\<open>[...new Set(data.map(entry => entry.exercises?.name).filter(Boolean))]\<close>: the names
  in first-occurrence order, without the missing and the empty ones.
\<close>

definition entryName :: "entry_row \<Rightarrow> string option" where
  "entryName entry = map_option ex_name (exercises entry)"

definition newSet :: "'a list \<Rightarrow> 'a list" where
  "newSet xs = foldl (\<lambda>acc x. if x \<in> set acc then acc else acc @ [x]) [] xs"

definition exerciseNames :: "entry_row list \<Rightarrow> string list" where
  "exerciseNames data = newSet (filter (\<lambda>n. n \<noteq> '''') (List.map_filter entryName data))"

definition groupRecord ::
  "ViewMode \<Rightarrow> int \<Rightarrow> entry_row list \<Rightarrow> string list \<Rightarrow> interval \<Rightarrow> chart_record" where
  "groupRecord mode tz data names i =
     (let dayData = filter (entryMatches mode tz i) data
      in foldl (\<lambda>result exerciseName.
                  let exerciseData = filter (\<lambda>entry. entryName entry = Some exerciseName) dayData
                  in setProp (if exerciseName = '''' then ''Unknown'' else exerciseName)
                       (Num (totalEffort exerciseData)) result)
           [(''date'', Str (date i))] names)"

definition fetchGroupData ::
  "int \<Rightarrow> jsdate \<Rightarrow> db \<Rightarrow> analytics \<Rightarrow> js_error + analytics" where
  "fetchGroupData tz now db st =
     (if selectedGroup st = '''' then Inr st
      else
        let (start, end) = getDateRange (viewMode st) tz now;
            st1 = st\<lparr>loading := True,
                     requests := requests st @ [ExercisesOfGroup (selectedGroup st)]\<rparr>
        in case selectExercises db (selectedGroup st) of
             Inl exerciseError \<Rightarrow>
               Inr (st1\<lparr>toasts := toasts st1 @ [failedToast ''Failed to load group exercises''],
                        loading := False\<rparr>)
           | Inr groupExercises \<Rightarrow>
               let q = \<lparr>filters = In_exercise_id (map ex_id groupExercises)
                                   # windowFilters tz start end,
                        order_workout_date = True\<rparr>;
                   st2 = st1\<lparr>requests := requests st1 @ [WorkoutEntries q]\<rparr>
               in case selectEntries db q of
                    Inl error \<Rightarrow>
                      Inr (st2\<lparr>toasts := toasts st2 @ [failedToast ''Failed to load workout data''],
                               loading := False\<rparr>)
                  | Inr data \<Rightarrow>
                      (case generateDateIntervals (viewMode st) tz start end of
                         Inl e \<Rightarrow> Inl e
                       | Inr intervals \<Rightarrow>
                           Inr (st2\<lparr>chartData :=
                                      map (groupRecord (viewMode st) tz data (exerciseNames data))
                                        intervals,
                                    loading := False\<rparr>)))"

definition handleAnalyze :: "int \<Rightarrow> jsdate \<Rightarrow> db \<Rightarrow> analytics \<Rightarrow> js_error + analytics" where
  "handleAnalyze tz now db st =
     (if selectedExercise st \<noteq> '''' then fetchSingleExerciseData tz now db st
      else if selectedGroup st \<noteq> '''' then fetchGroupData tz now db st
      else Inr st)"

text \<open>The \<^verbatim>\<open>onValueChange\<close> handlers of the two selects and the view-mode buttons.\<close>

definition exerciseChanged :: "string \<Rightarrow> analytics \<Rightarrow> analytics" where
  "exerciseChanged v st = st\<lparr>selectedExercise := v, selectedGroup := ''''\<rparr>"

definition groupChanged :: "string \<Rightarrow> analytics \<Rightarrow> analytics" where
  "groupChanged v st = st\<lparr>selectedGroup := v, selectedExercise := ''''\<rparr>"

definition analyzeDisabled :: "analytics \<Rightarrow> bool" where
  "analyzeDisabled st = (loading st \<or> (selectedExercise st = '''' \<and> selectedGroup st = ''''))"

text \<open>
  The states the view can be in: it starts with nothing selected; the user picks an
  exercise, a group or a view mode, or presses Analyze when the button is enabled.
\<close>

inductive reachable :: "int \<Rightarrow> db \<Rightarrow> analytics \<Rightarrow> bool" for tz :: int and db :: db where
  init: "reachable tz db initialAnalytics"
| pickExercise: "reachable tz db st \<Longrightarrow> reachable tz db (exerciseChanged v st)"
| pickGroup: "reachable tz db st \<Longrightarrow> reachable tz db (groupChanged v st)"
| pickMode: "reachable tz db st \<Longrightarrow> reachable tz db (st\<lparr>viewMode := mode\<rparr>)"
| analyze: "reachable tz db st \<Longrightarrow> \<not> analyzeDisabled st \<Longrightarrow>
     handleAnalyze tz now db st = Inr st' \<Longrightarrow> reachable tz db st'"

section \<open>The analytics view without view modes\<close>

text \<open>
  The second \<^verbatim>\<open>Analytics\<close> component: it refetches whenever a selection or the
  timeframe changes, keeps one chart per scope, reads \<^verbatim>\<open>weight_kg\<close> and \<^verbatim>\<open>reps\<close> and
  multiplies them itself. The timeframe is state but no read and no computation uses it.
\<close>

record analytics2 =
  selectedExercise2 :: string
  selectedGroup2 :: string
  timeframe :: string
  singleExerciseData :: "chart_record list"
  groupData :: "chart_record list"
  toasts2 :: "toast list"
  requests2 :: "request list"

definition fetchSingleExerciseData2 :: "db \<Rightarrow> analytics2 \<Rightarrow> js_error + analytics2" where
  "fetchSingleExerciseData2 db st =
     (if selectedExercise2 st = '''' then Inr st
      else
        let q = \<lparr>filters = [Eq_exercise_id (selectedExercise2 st)], order_workout_date = True\<rparr>;
            st1 = st\<lparr>requests2 := requests2 st @ [WorkoutEntries q]\<rparr>
        in case selectEntries db q of
             Inl error \<Rightarrow>
               Inr (st1\<lparr>toasts2 := toasts2 st1 @ [failedToast ''Failed to load workout data'']\<rparr>)
           | Inr data \<Rightarrow>
               Inr (st1\<lparr>singleExerciseData :=
                          map (\<lambda>entry. [(''date'', Str (dateText (workout_date entry))),
                                         (''effort'',
                                          Num (fmul (decimal (weight_kg entry))
                                                 (integerNum (reps entry))))]) data\<rparr>))"






section \<open>Notions used in the statements\<close>

text \<open>
  The series of the group chart:
  \<^verbatim>\<open>Object.keys(chartData[0] || {}).filter(key => key !== "date")\<close>.
\<close>

definition seriesKeys :: "chart_record list \<Rightarrow> string list" where
  "seriesKeys records =
     filter (\<lambda>key. key \<noteq> ''date'') (ownKeys (case records of [] \<Rightarrow> [] | r # _ \<Rightarrow> r))"

text \<open>The reads of workout entries that the two fetches of the first view send.\<close>

definition singleQuery :: "int \<Rightarrow> jsdate \<Rightarrow> analytics \<Rightarrow> query" where
  "singleQuery tz now st =
     \<lparr>filters = Eq_exercise_id (selectedExercise st)
        # windowFilters tz (fst (getDateRange (viewMode st) tz now))
            (snd (getDateRange (viewMode st) tz now)),
      order_workout_date = True\<rparr>"

definition groupQuery :: "int \<Rightarrow> jsdate \<Rightarrow> analytics \<Rightarrow> exercise list \<Rightarrow> query" where
  "groupQuery tz now st groupExercises =
     \<lparr>filters = In_exercise_id (map ex_id groupExercises)
        # windowFilters tz (fst (getDateRange (viewMode st) tz now))
            (snd (getDateRange (viewMode st) tz now)),
      order_workout_date = True\<rparr>"

definition oneScope :: "analytics \<Rightarrow> bool" where
  "oneScope st = (selectedExercise st = '''' \<or> selectedGroup st = '''')"

text \<open>
  Months counted from year 0: month \<open>k\<close> is month \<open>k mod 12\<close> of year \<open>k div 12\<close>;
  \<open>monthDay k\<close> is the day number of its first day and \<open>monthIndex n\<close> the month that
  day \<open>n\<close> lies in.
\<close>

definition monthDay :: "int \<Rightarrow> int" where
  "monthDay k = makeDay 0 k 1"

definition monthIndex :: "int \<Rightarrow> int" where
  "monthIndex n = (case civil n of (y, m, d) \<Rightarrow> 12 * y + m)"

text \<open>
  The chronological order of bucket keys: two keys of the same pattern compare as their
  dates do; keys of different patterns are not comparable.
\<close>

fun keyBefore :: "formatted \<Rightarrow> formatted \<Rightarrow> bool" where
  "keyBefore (Txt_yyyy_MM_dd y m d) (Txt_yyyy_MM_dd y' m' d') = ((y, m, d) < (y', m', d'))"
| "keyBefore (Txt_yyyy_MM y m) (Txt_yyyy_MM y' m') = ((y, m) < (y', m'))"
| "keyBefore _ _ = False"

text \<open>The key \<^verbatim>\<open>yyyy-MM\<close> of month \<open>k\<close> counted from year 0.\<close>

definition monthText :: "int \<Rightarrow> formatted" where
  "monthText k = Txt_yyyy_MM (k div 12) (k mod 12 + 1)"

text \<open>
  What a range-filtered, ordered read is to return: the rows of the entries that satisfy
  \<open>P\<close> and are dated from the day of \<open>start\<close> to the day of \<open>end\<close>, ascending by date.
\<close>

definition rangeRead ::
  "store \<Rightarrow> (workout_entry \<Rightarrow> bool) \<Rightarrow> int \<Rightarrow> jsdate \<Rightarrow> jsdate \<Rightarrow> entry_row list" where
  "rangeRead s P tz start end =
     sort_key workout_date (map (rowOf s)
       (filter (\<lambda>e. P e \<and> localDay tz start \<le> we_workout_date e
                    \<and> we_workout_date e \<le> localDay tz end) (tbl_workout_entries s)))"


text \<open>
  The entries of the \<open>k\<close>-th bucket of a window that starts at \<open>start\<close>: with day
  granularity those dated on the \<open>k\<close>-th day from the day of \<open>start\<close>, with month
  granularity those dated in the \<open>k\<close>-th calendar month from the month of \<open>start\<close>.
\<close>

definition inBucket :: "ViewMode \<Rightarrow> int \<Rightarrow> jsdate \<Rightarrow> nat \<Rightarrow> entry_row \<Rightarrow> bool" where
  "inBucket mode tz start k entry =
     (if mode = Year
      then monthIndex (workout_date entry) = monthIndex (localDay tz start) + int k
      else workout_date entry = localDay tz start + int k)"

text \<open>The key of that bucket.\<close>

definition bucketKey :: "ViewMode \<Rightarrow> int \<Rightarrow> jsdate \<Rightarrow> nat \<Rightarrow> formatted" where
  "bucketKey mode tz start k =
     (if mode = Year then monthText (monthIndex (localDay tz start) + int k)
      else dateText (localDay tz start + int k))"





definition inWindow :: "int \<Rightarrow> jsdate \<Rightarrow> jsdate \<Rightarrow> entry_row \<Rightarrow> bool" where
  "inWindow tz start end e =
     (localDay tz start \<le> workout_date e \<and> workout_date e \<le> localDay tz end)"

definition inWindowMonths :: "int \<Rightarrow> jsdate \<Rightarrow> jsdate \<Rightarrow> entry_row \<Rightarrow> bool" where
  "inWindowMonths tz start end e =
     (monthIndex (localDay tz start) \<le> monthIndex (workout_date e) \<and>
      monthIndex (workout_date e) \<le> monthIndex (localDay tz end))"



section \<open>Example data\<close>

text \<open>A collaborator whose every read fails.\<close>

definition failingDb :: db where
  "failingDb =
     \<lparr>selectExercises = (\<lambda>g. Inl (PostgrestError ''connection refused'')),
      selectEntries = (\<lambda>q. Inl (PostgrestError ''connection refused''))\<rparr>"

text \<open>A collaborator that answers the read of exercises and fails the read of entries.\<close>

definition entriesFailingDb :: db where
  "entriesFailingDb =
     \<lparr>selectExercises = (\<lambda>g. Inr []),
      selectEntries = (\<lambda>q. Inl (PostgrestError ''timeout''))\<rparr>"

text \<open>
  A store with two exercises of one group and three entries: Squat 80 kg x 10 on
  2020-01-01 (day 18262), Squat 100 kg x 5 and Leg Press 60 kg x 12 on 2024-02-29
  (day 19782). The moment \<open>noon\<close> is 2024-03-01 12:00 UTC (day 19783).
\<close>

definition squat :: exercise where
  "squat = \<lparr>ex_id = ''e1'', ex_name = ''Squat'', ex_group_id = ''g1''\<rparr>"

definition legPress :: exercise where
  "legPress = \<lparr>ex_id = ''e2'', ex_name = ''Leg Press'', ex_group_id = ''g1''\<rparr>"

definition gymStore :: store where
  "gymStore =
     \<lparr>tbl_exercises = [squat, legPress],
      tbl_workout_entries =
        [\<lparr>we_exercise_id = ''e1'', we_weight_kg = 8000, we_reps = 10, we_workout_date = 18262\<rparr>,
         \<lparr>we_exercise_id = ''e1'', we_weight_kg = 10000, we_reps = 5, we_workout_date = 19782\<rparr>,
         \<lparr>we_exercise_id = ''e2'', we_weight_kg = 6000, we_reps = 12, we_workout_date = 19782\<rparr>]\<rparr>"

definition noon :: jsdate where
  "noon = 19783 * 86400000 + 43200000"

definition initialAnalytics2 :: analytics2 where
  "initialAnalytics2 =
     \<lparr>selectedExercise2 = '''', selectedGroup2 = '''', timeframe = ''month'',
      singleExerciseData = [], groupData = [], toasts2 = [], requests2 = []\<rparr>"






section \<open>Scope selection and dispatch\<close>

lemma handleAnalyze_keeps_selection:
  assumes "handleAnalyze tz now db st = Inr st'"
  shows "selectedExercise st' = selectedExercise st \<and> selectedGroup st' = selectedGroup st"
  using assms
  by (auto simp: handleAnalyze_def fetchSingleExerciseData_def fetchGroupData_def Let_def
      split: if_splits sum.splits prod.splits)

lemma reachable_oneScope: "reachable tz db st \<Longrightarrow> oneScope st"
proof (induction rule: reachable.induct)
  case init
  show ?case by (simp add: oneScope_def initialAnalytics_def)
next
  case (pickExercise st v)
  show ?case by (simp add: oneScope_def exerciseChanged_def)
next
  case (pickGroup st v)
  show ?case by (simp add: oneScope_def groupChanged_def)
next
  case (pickMode st mode)
  then show ?case by (simp add: oneScope_def)
next
  case (analyze st now st')
  then show ?case using handleAnalyze_keeps_selection [of tz now db st st']
    by (simp add: oneScope_def)
qed

text \<open>
  C10. Choosing an exercise clears the group and choosing a group clears the exercise, so
  in every state the view can reach at most one scope is selected. When the Analyze button
  is enabled, the click therefore runs exactly one fetch: the single-exercise one when an
  exercise is selected (and then no group is), the group one when a group is selected (and
  then no exercise is). The dispatch tests the exercise first: whenever an exercise is
  selected the single-exercise fetch runs, whatever the group selection.
\<close>

theorem C10_one_scope_and_dispatch:
  "selectedGroup (exerciseChanged v st) = '''' \<and> selectedExercise (exerciseChanged v st) = v \<and>
   selectedExercise (groupChanged v st) = '''' \<and> selectedGroup (groupChanged v st) = v \<and>
   (reachable tz db st \<longrightarrow>
      (selectedExercise st = '''' \<or> selectedGroup st = '''') \<and>
      (\<not> analyzeDisabled st \<longrightarrow>
         (selectedExercise st \<noteq> '''' \<and> selectedGroup st = '''' \<and>
            handleAnalyze tz now db st = fetchSingleExerciseData tz now db st)
       \<or> (selectedExercise st = '''' \<and> selectedGroup st \<noteq> '''' \<and>
            handleAnalyze tz now db st = fetchGroupData tz now db st))) \<and>
   (selectedExercise st \<noteq> '''' \<longrightarrow>
      handleAnalyze tz now db st = fetchSingleExerciseData tz now db st)"
proof -
  have sel: "selectedGroup (exerciseChanged v st) = '''' \<and> selectedExercise (exerciseChanged v st) = v \<and>
      selectedExercise (groupChanged v st) = '''' \<and> selectedGroup (groupChanged v st) = v"
    by (simp add: exerciseChanged_def groupChanged_def)
  have prec: "selectedExercise st \<noteq> '''' \<longrightarrow>
      handleAnalyze tz now db st = fetchSingleExerciseData tz now db st"
    by (simp add: handleAnalyze_def)
  have inv: "reachable tz db st \<longrightarrow>
      (selectedExercise st = '''' \<or> selectedGroup st = '''') \<and>
      (\<not> analyzeDisabled st \<longrightarrow>
         (selectedExercise st \<noteq> '''' \<and> selectedGroup st = '''' \<and>
            handleAnalyze tz now db st = fetchSingleExerciseData tz now db st)
       \<or> (selectedExercise st = '''' \<and> selectedGroup st \<noteq> '''' \<and>
            handleAnalyze tz now db st = fetchGroupData tz now db st))"
  proof
    assume "reachable tz db st"
    then have "oneScope st" by (rule reachable_oneScope)
    then show "(selectedExercise st = '''' \<or> selectedGroup st = '''') \<and>
      (\<not> analyzeDisabled st \<longrightarrow>
         (selectedExercise st \<noteq> '''' \<and> selectedGroup st = '''' \<and>
            handleAnalyze tz now db st = fetchSingleExerciseData tz now db st)
       \<or> (selectedExercise st = '''' \<and> selectedGroup st \<noteq> '''' \<and>
            handleAnalyze tz now db st = fetchGroupData tz now db st))"
      by (auto simp: oneScope_def analyzeDisabled_def handleAnalyze_def)
  qed
  from sel inv prec show ?thesis by blast
qed

theorem C10_one_scope_and_dispatch_witness:
  "reachable 0 (storeDb \<lparr>tbl_exercises = [], tbl_workout_entries = []\<rparr>)
     (exerciseChanged ''e1'' initialAnalytics) \<and>
   \<not> analyzeDisabled (exerciseChanged ''e1'' initialAnalytics) \<and>
   selectedExercise (exerciseChanged ''e1'' initialAnalytics) = ''e1'' \<and>
   selectedGroup (exerciseChanged ''e1'' initialAnalytics) = '''' \<and>
   handleAnalyze 0 0 (storeDb \<lparr>tbl_exercises = [], tbl_workout_entries = []\<rparr>)
       (exerciseChanged ''e1'' initialAnalytics)
     = fetchSingleExerciseData 0 0 (storeDb \<lparr>tbl_exercises = [], tbl_workout_entries = []\<rparr>)
         (exerciseChanged ''e1'' initialAnalytics)"
proof -
  let ?db = "storeDb \<lparr>tbl_exercises = [], tbl_workout_entries = []\<rparr>"
  let ?st = "exerciseChanged ''e1'' initialAnalytics"
  have r: "reachable 0 ?db ?st"
    by (rule reachable.pickExercise) (rule reachable.init)
  have e: "\<not> analyzeDisabled ?st" "selectedExercise ?st = ''e1''" "selectedGroup ?st = ''''"
    by (simp_all add: analyzeDisabled_def exerciseChanged_def initialAnalytics_def)
  from C10_one_scope_and_dispatch [where st = "?st" and tz = 0 and db = "?db" and now = 0] r e
  have "handleAnalyze 0 0 ?db ?st = fetchSingleExerciseData 0 0 ?db ?st"
    by simp
  with r e show ?thesis by simp
qed

section \<open>The interval loops in closed form\<close>

lemma midnight_le_iff: "fromLocal tz n 0 \<le> e \<longleftrightarrow> n \<le> localDay tz e"
proof -
  let ?a = "e + tz * 60000"
  have a: "?a = msPerDay * (?a div msPerDay) + ?a mod msPerDay" by simp
  have r: "0 \<le> ?a mod msPerDay" "?a mod msPerDay < msPerDay"
    using msPerDay_pos by simp_all
  have "n * msPerDay \<le> ?a \<longleftrightarrow> n \<le> ?a div msPerDay"
  proof
    assume "n * msPerDay \<le> ?a"
    then have "n * msPerDay div msPerDay \<le> ?a div msPerDay"
      by (rule zdiv_mono1) (rule msPerDay_pos)
    then show "n \<le> ?a div msPerDay" using msPerDay_pos by simp
  next
    assume "n \<le> ?a div msPerDay"
    then have "n * msPerDay \<le> (?a div msPerDay) * msPerDay"
      using msPerDay_pos by (simp add: mult_right_mono)
    also have "\<dots> \<le> ?a"
    proof -
      have "(?a div msPerDay) * msPerDay + ?a mod msPerDay = ?a" by simp
      with r(1) show ?thesis by linarith
    qed
    finally show "n * msPerDay \<le> ?a" .
  qed
  moreover have "fromLocal tz n 0 \<le> e \<longleftrightarrow> n * msPerDay \<le> ?a"
    by (auto simp: fromLocal_def)
  ultimately show ?thesis by (simp add: localDay_def)
qed

lemma localDay_midnight: "localDay tz (fromLocal tz n 0) = n"
  using localDay_fromLocal [of 0 tz n] msPerDay_pos by simp

lemma timeInDay_midnight: "timeInDay tz (fromLocal tz n 0) = 0"
  using timeInDay_fromLocal [of 0 tz n] msPerDay_pos by simp

lemma setHours0_midnight: "setHours0 tz (fromLocal tz n 0) = fromLocal tz n 0"
  by (simp add: setHours0_def localDay_midnight)

lemma midnight_add_days: "fromLocal tz n 0 + k * msPerDay = fromLocal tz (n + k) 0"
  by (simp add: fromLocal_def algebra_simps)

lemma next_midnight:
  "setHours0 tz (addDays tz (fromLocal tz n 0) 1) = fromLocal tz (n + 1) 0"
proof -
  have "addDays tz (fromLocal tz n 0) 1 = fromLocal tz (n + 1) 0"
    using midnight_add_days [of tz n 1] by (simp add: addDays_eq)
  then show ?thesis by (simp add: setHours0_midnight)
qed

lemma dayLoop_midnights:
  "dayLoop tz (fromLocal tz n 0) e = map (\<lambda>k. fromLocal tz k 0) [n..localDay tz e]"
proof (induction "nat (localDay tz e + 1 - n)" arbitrary: n)
  case 0
  then have "\<not> n \<le> localDay tz e" by simp
  then have "\<not> fromLocal tz n 0 \<le> e" by (simp add: midnight_le_iff)
  then have "dayLoop tz (fromLocal tz n 0) e = []" by (subst dayLoop.simps) simp
  with 0 show ?case by simp
next
  case (Suc x)
  then have le: "n \<le> localDay tz e" by simp
  then have "fromLocal tz n 0 \<le> e" by (simp add: midnight_le_iff)
  then have "dayLoop tz (fromLocal tz n 0) e
      = fromLocal tz n 0 # dayLoop tz (fromLocal tz (n + 1) 0) e"
    by (subst dayLoop.simps) (simp add: next_midnight)
  moreover have "x = nat (localDay tz e + 1 - (n + 1))" using Suc(2) by simp
  ultimately show ?case using Suc(1) [of "n + 1"] le by (simp add: upto_rec1 [of n])
qed

lemma eachDayOfInterval_eq:
  assumes "start \<le> end"
  shows "eachDayOfInterval tz start end
    = Inr (map (\<lambda>k. fromLocal tz k 0) [localDay tz start..localDay tz end])"
  using assms by (simp add: eachDayOfInterval_def setHours0_def dayLoop_midnights)

lemma localDay_mono: "a \<le> b \<Longrightarrow> localDay tz a \<le> localDay tz b"
  unfolding localDay_def by (rule zdiv_mono1) (simp_all add: msPerDay_pos)

lemma makeDay_normal: "makeDay y m d = monthDay (12 * y + m) + d - 1"
proof -
  have "(12 * y + m) div 12 = y + m div 12" "(12 * y + m) mod 12 = m mod 12"
    by simp_all
  then show ?thesis by (simp add: makeDay_def monthDay_def Let_def)
qed

lemma monthDay_next: "monthDay (k + 1) = monthDay k + daysInMonth (k div 12) (k mod 12)"
proof -
  have k: "12 * (k div 12) + k mod 12 = k" by simp
  have "monthDay (k + 1) = makeDay (k div 12) (k mod 12 + 1) 1"
    using makeDay_normal [of "k div 12" "k mod 12 + 1" 1] k by (simp add: add.assoc [symmetric])
  also have "\<dots> = makeDay (k div 12) (k mod 12) 1 + daysInMonth (k div 12) (k mod 12)"
    by (rule makeDay_month_next) simp_all
  also have "makeDay (k div 12) (k mod 12) 1 = monthDay k"
    using makeDay_normal [of "k div 12" "k mod 12" 1] k by simp
  finally show ?thesis .
qed

lemma monthDay_strict_mono:
  assumes "j < k"
  shows "monthDay j < monthDay k"
  using assms
proof (induct k rule: int_gr_induct)
  case base
  show ?case using daysInMonth_bounds [of "j div 12" "j mod 12"] by (simp add: monthDay_next)
next
  case (step i)
  then show ?case using daysInMonth_bounds [of "i div 12" "i mod 12"] by (simp add: monthDay_next)
qed

lemma monthDay_mono: "j \<le> k \<Longrightarrow> monthDay j \<le> monthDay k"
  using monthDay_strict_mono [of j k] by (cases "j = k") simp_all

lemma civil_monthIndex:
  assumes "civil n = (y, m, d)"
  shows "monthIndex n = 12 * y + m" and "monthIndex n div 12 = y" and "monthIndex n mod 12 = m"
    and "n = monthDay (monthIndex n) + d - 1" and "1 \<le> d" and "d \<le> daysInMonth y m"
proof -
  from civil_props [OF assms] have v: "0 \<le> m" "m \<le> 11" "1 \<le> d" "d \<le> daysInMonth y m"
    and n: "makeDay y m d = n" by simp_all
  show i: "monthIndex n = 12 * y + m" using assms by (simp add: monthIndex_def)
  show "monthIndex n div 12 = y" using v i by simp
  show "monthIndex n mod 12 = m" using v i by simp
  show "n = monthDay (monthIndex n) + d - 1" using n i makeDay_normal [of y m d] by simp
  show "1 \<le> d" "d \<le> daysInMonth y m" using v by simp_all
qed

lemma monthDay_le_iff: "monthDay k \<le> n \<longleftrightarrow> k \<le> monthIndex n"
proof -
  obtain y m d where c: "civil n = (y, m, d)" by (metis prod_cases3)
  note f = civil_monthIndex [OF c]
  show ?thesis
  proof
    assume a: "monthDay k \<le> n"
    show "k \<le> monthIndex n"
    proof (rule ccontr)
      assume "\<not> k \<le> monthIndex n"
      then have "monthDay (monthIndex n + 1) \<le> monthDay k" by (simp add: monthDay_mono)
      moreover have "n < monthDay (monthIndex n + 1)"
        using f by (simp add: monthDay_next)
      ultimately show False using a by simp
    qed
  next
    assume "k \<le> monthIndex n"
    then have "monthDay k \<le> monthDay (monthIndex n)" by (rule monthDay_mono)
    then show "monthDay k \<le> n" using f(4,5) by linarith
  qed
qed

lemma civil_monthDay: "civil (monthDay k) = (k div 12, k mod 12, 1)"
proof -
  have "validYMD (k div 12, k mod 12, 1)"
    using daysInMonth_bounds [of "k div 12" "k mod 12"] by simp
  from civil_makeDay [OF this] makeDay_normal [of "k div 12" "k mod 12" 1]
  show ?thesis by simp
qed

lemma monthIndex_monthDay: "monthIndex (monthDay k) = k"
  by (simp add: monthIndex_def civil_monthDay)

lemma next_month_midnight:
  "setMonth tz (fromLocal tz (monthDay k) 0) (getMonth tz (fromLocal tz (monthDay k) 0) + 1)
     = fromLocal tz (monthDay (k + 1)) 0"
proof -
  let ?t = "fromLocal tz (monthDay k) 0"
  have "getFullYear tz ?t = k div 12" "getMonth tz ?t = k mod 12"
    by (simp_all add: getFullYear_def getMonth_def localDay_midnight civil_monthDay)
  then have "setMonth tz ?t (getMonth tz ?t + 1)
      = ?t + daysInMonth (k div 12) (k mod 12) * msPerDay"
    using setMonth_next [of tz ?t] by simp
  also have "\<dots> = fromLocal tz (monthDay k + daysInMonth (k div 12) (k mod 12)) 0"
    by (rule midnight_add_days)
  finally show ?thesis by (simp add: monthDay_next)
qed

lemma monthLoop_months:
  "monthLoop tz (fromLocal tz (monthDay k) 0) e
     = map (\<lambda>j. fromLocal tz (monthDay j) 0) [k..monthIndex (localDay tz e)]"
proof (induction "nat (monthIndex (localDay tz e) + 1 - k)" arbitrary: k)
  case 0
  then have "\<not> k \<le> monthIndex (localDay tz e)" by simp
  then have "\<not> fromLocal tz (monthDay k) 0 \<le> e"
    by (simp add: midnight_le_iff monthDay_le_iff)
  then have "monthLoop tz (fromLocal tz (monthDay k) 0) e = []"
    by (subst monthLoop.simps) simp
  with 0 show ?case by simp
next
  case (Suc x)
  then have le: "k \<le> monthIndex (localDay tz e)" by simp
  then have "fromLocal tz (monthDay k) 0 \<le> e"
    by (simp add: midnight_le_iff monthDay_le_iff)
  then have "monthLoop tz (fromLocal tz (monthDay k) 0) e
      = fromLocal tz (monthDay k) 0 # monthLoop tz (fromLocal tz (monthDay (k + 1)) 0) e"
    by (subst monthLoop.simps) (simp add: next_month_midnight)
  moreover have "x = nat (monthIndex (localDay tz e) + 1 - (k + 1))" using Suc(2) by simp
  ultimately show ?case using Suc(1) [of "k + 1"] le by (simp add: upto_rec1 [of k])
qed

lemma first_of_month:
  "setDate tz (setHours0 tz t) 1 = fromLocal tz (monthDay (monthIndex (localDay tz t))) 0"
proof -
  obtain y m d where c: "civil (localDay tz t) = (y, m, d)" by (metis prod_cases3)
  have "makeDay y m 1 = monthDay (monthIndex (localDay tz t))"
    using civil_monthIndex(1) [OF c] makeDay_normal [of y m 1] by simp
  then show ?thesis
    using c by (simp add: setDate_def setFullYear_def setHours0_def getFullYear_def getMonth_def
        localDay_midnight timeInDay_midnight)
qed

lemma eachMonthOfInterval_eq:
  assumes "start \<le> end"
  shows "eachMonthOfInterval tz start end
    = Inr (map (\<lambda>j. fromLocal tz (monthDay j) 0)
        [monthIndex (localDay tz start)..monthIndex (localDay tz end)])"
  using assms by (simp add: eachMonthOfInterval_def first_of_month monthLoop_months)

lemma monthIndex_mono: "a \<le> b \<Longrightarrow> monthIndex a \<le> monthIndex b"
proof -
  assume "a \<le> b"
  have "monthDay (monthIndex a) \<le> a" by (simp add: monthDay_le_iff)
  with \<open>a \<le> b\<close> have "monthDay (monthIndex a) \<le> b" by simp
  then show ?thesis by (simp add: monthDay_le_iff)
qed

section \<open>The interval generator\<close>

lemma upto_map_props:
  assumes "a \<le> b"
  shows "map f [a..b] \<noteq> []" and "hd (map f [a..b]) = f a" and "last (map f [a..b]) = f b"
proof -
  show "map f [a..b] \<noteq> []" using assms by simp
  show "hd (map f [a..b]) = f a" using assms by (simp add: upto_rec1 [of a b])
  show "last (map f [a..b]) = f b" using assms by (simp add: upto_rec2 [of a b])
qed

lemma sorted_wrt_map_upto:
  assumes "\<And>i j. i < j \<Longrightarrow> r (f i) (f j)"
  shows "sorted_wrt r (map f [a..b])"
proof -
  have "sorted_wrt (\<lambda>i j. r (f i) (f j)) [a..b]"
    by (rule sorted_wrt_mono_rel [OF _ sorted_wrt_upto]) (simp add: assms)
  then show ?thesis by (simp add: sorted_wrt_map)
qed

lemma format_day_key: "format tz t Pat_yyyy_MM_dd = dateText (localDay tz t)"
  by (simp add: format_def dateText_def split: prod.splits)

lemma format_month_key: "format tz t Pat_yyyy_MM = monthText (monthIndex (localDay tz t))"
proof -
  obtain y m d where c: "civil (localDay tz t) = (y, m, d)" by (metis prod_cases3)
  from civil_monthIndex(2,3) [OF c] c show ?thesis
    by (simp add: format_def monthText_def)
qed

lemma dateText_before: 
  assumes "i < j"
  shows "keyBefore (dateText i) (dateText j)"
proof -
  obtain y m d where ci: "civil i = (y, m, d)" by (metis prod_cases3)
  obtain y' m' d' where cj: "civil j = (y', m', d')" by (metis prod_cases3)
  from civil_strict_mono [OF assms] have "(y, m, d) < (y', m', d')" by (simp only: ci cj)
  then show ?thesis by (auto simp: dateText_def ci cj)
qed

lemma monthText_before:
  assumes "i < j"
  shows "keyBefore (monthText i) (monthText j)"
proof -
  have i: "i = 12 * (i div 12) + i mod 12" and j: "j = 12 * (j div 12) + j mod 12" by simp_all
  have "i div 12 \<le> j div 12" using assms by (simp add: zdiv_mono1)
  moreover have "i mod 12 < j mod 12" if "i div 12 = j div 12"
    using i j that assms by linarith
  ultimately have "i div 12 < j div 12 \<or> (i div 12 = j div 12 \<and> i mod 12 + 1 < j mod 12 + 1)"
    by (cases "i div 12 = j div 12") simp_all
  then show ?thesis unfolding monthText_def keyBefore.simps less_prod_def' by simp
qed

lemma dayInterval_key: "dateValue (dayInterval tz (fromLocal tz k 0)) = dateText k"
  by (simp add: dayInterval_def format_day_key localDay_midnight)

lemma monthInterval_key: "dateValue (monthInterval tz (fromLocal tz (monthDay j) 0)) = monthText j"
  by (simp add: monthInterval_def format_month_key localDay_midnight monthIndex_monthDay)

lemma generateDateIntervals_days:
  assumes "start \<le> end" and "mode \<noteq> Year"
  shows "generateDateIntervals mode tz start end
    = Inr (map (\<lambda>k. dayInterval tz (fromLocal tz k 0)) [localDay tz start..localDay tz end])"
  using assms by (cases mode) (simp_all add: generateDateIntervals_def eachDayOfInterval_eq comp_def)

lemma generateDateIntervals_months:
  assumes "start \<le> end"
  shows "generateDateIntervals Year tz start end
    = Inr (map (\<lambda>j. monthInterval tz (fromLocal tz (monthDay j) 0))
        [monthIndex (localDay tz start)..monthIndex (localDay tz end)])"
  using assms by (simp add: generateDateIntervals_def eachMonthOfInterval_eq comp_def)

text \<open>
  C3. For \<open>start \<le> end\<close> and every view mode the interval generator returns buckets, at
  least one, whose keys are strictly ascending in time; the first key is the key of
  \<open>start\<close> and the last the key of \<open>end\<close>; with day granularity (week and month
  presets) the keys are exactly the calendar days from the day of \<open>start\<close> to the day of
  \<open>end\<close>, one each, and with month granularity (year preset) exactly the calendar months
  from the month of \<open>start\<close> to the month of \<open>end\<close>.
\<close>

theorem C3_interval_generator:
  assumes "start \<le> end"
  shows "\<exists>is. generateDateIntervals mode tz start end = Inr is \<and> is \<noteq> [] \<and>
      sorted_wrt keyBefore (map dateValue is) \<and>
      dateValue (hd is)
        = format tz start (if mode = Year then Pat_yyyy_MM else Pat_yyyy_MM_dd) \<and>
      dateValue (last is)
        = format tz end (if mode = Year then Pat_yyyy_MM else Pat_yyyy_MM_dd) \<and>
      map dateValue is
        = (if mode = Year
           then map monthText [monthIndex (localDay tz start)..monthIndex (localDay tz end)]
           else map dateText [localDay tz start..localDay tz end])"
proof (cases "mode = Year")
  case True
  let ?a = "monthIndex (localDay tz start)" and ?b = "monthIndex (localDay tz end)"
  let ?f = "\<lambda>j. monthInterval tz (fromLocal tz (monthDay j) 0)"
  let ?is = "map ?f [?a..?b]"
  have ab: "?a \<le> ?b" using assms by (simp add: localDay_mono monthIndex_mono)
  have g: "generateDateIntervals mode tz start end = Inr ?is"
    using True generateDateIntervals_months [OF assms] by simp
  have keys: "map dateValue ?is = map monthText [?a..?b]"
    by (simp add: comp_def monthInterval_key)
  have "sorted_wrt keyBefore (map monthText [?a..?b])"
    by (rule sorted_wrt_map_upto) (rule monthText_before)
  moreover have "dateValue (hd ?is) = format tz start Pat_yyyy_MM"
    using upto_map_props(2) [OF ab, of ?f] by (simp add: monthInterval_key format_month_key)
  moreover have "dateValue (last ?is) = format tz end Pat_yyyy_MM"
    using upto_map_props(3) [OF ab, of ?f] by (simp add: monthInterval_key format_month_key)
  moreover have "?is \<noteq> []" using ab by simp
  ultimately show ?thesis using g keys True by (intro exI [of _ ?is]) (simp only: simp_thms if_True)
next
  case False
  let ?a = "localDay tz start" and ?b = "localDay tz end"
  let ?f = "\<lambda>k. dayInterval tz (fromLocal tz k 0)"
  let ?is = "map ?f [?a..?b]"
  have ab: "?a \<le> ?b" using assms by (simp add: localDay_mono)
  have g: "generateDateIntervals mode tz start end = Inr ?is"
    using False generateDateIntervals_days [OF assms] by simp
  have keys: "map dateValue ?is = map dateText [?a..?b]"
    by (simp add: comp_def dayInterval_key)
  have "sorted_wrt keyBefore (map dateText [?a..?b])"
    by (rule sorted_wrt_map_upto) (rule dateText_before)
  moreover have "dateValue (hd ?is) = format tz start Pat_yyyy_MM_dd"
    using upto_map_props(2) [OF ab, of ?f] by (simp add: dayInterval_key format_day_key)
  moreover have "dateValue (last ?is) = format tz end Pat_yyyy_MM_dd"
    using upto_map_props(3) [OF ab, of ?f] by (simp add: dayInterval_key format_day_key)
  moreover have "?is \<noteq> []" using ab by simp
  ultimately show ?thesis using g keys False by (intro exI [of _ ?is]) (simp only: simp_thms if_False)
qed

theorem C3_interval_generator_witness:
  "(0::int) \<le> 172800000 \<and>
   (\<exists>is. generateDateIntervals Week 330 0 172800000 = Inr is \<and> is \<noteq> [] \<and>
      sorted_wrt keyBefore (map dateValue is) \<and>
      dateValue (hd is) = format 330 0 Pat_yyyy_MM_dd \<and>
      dateValue (last is) = format 330 172800000 Pat_yyyy_MM_dd \<and>
      map dateValue is = map dateText [localDay 330 0..localDay 330 172800000])"
proof -
  have h: "(0::int) \<le> 172800000" by simp
  from C3_interval_generator [OF h, of Week 330] h show ?thesis by simp
qed

section \<open>The presets never produce an invalid range\<close>

lemma fromLocal_less: "fromLocal tz a ms < fromLocal tz b ms \<longleftrightarrow> a < b"
  using msPerDay_pos by (simp add: fromLocal_def)

lemma addMonths_before:
  assumes "a < 0"
  shows "addMonths tz t a < t"
proof -
  let ?y = "getFullYear tz t" and ?m = "getMonth tz t" and ?d = "getDate tz t"
  let ?ms = "timeInDay tz t" and ?L = "localDay tz t"
  let ?E = "makeDay ?y (?m + a + 1) 0"
  let ?eodm = "setMonth2 tz t (?m + a + 1) 0"
  have eodm: "?eodm = fromLocal tz ?E ?ms"
    by (simp add: setMonth2_def setFullYear_def)
  have lE: "localDay tz ?eodm = ?E"
    using timeInDay_range [of tz t] by (simp only: eodm localDay_fromLocal)
  have L: "?L = monthDay (12 * ?y + ?m) + ?d - 1"
    using makeDay_fields [of tz t] makeDay_normal [of ?y ?m ?d] by simp
  have "monthDay (12 * ?y + (?m + a + 1)) \<le> monthDay (12 * ?y + ?m)"
    using assms by (intro monthDay_mono) simp
  then have EL: "?E < ?L"
    using L getDate_range [of tz t] makeDay_normal [of ?y "?m + a + 1" 0] by linarith
  have t: "t = fromLocal tz ?L ?ms" by (simp add: local_split)
  show ?thesis
  proof (cases "?d \<ge> getDate tz ?eodm")
    case True
    then have "addMonths tz t a = fromLocal tz ?E ?ms"
      by (simp add: addMonths_def Let_def eodm)
    also have "\<dots> < fromLocal tz ?L ?ms" using EL by (simp add: fromLocal_less)
    finally show ?thesis using t by simp
  next
    case False
    let ?ey = "getFullYear tz ?eodm" and ?em = "getMonth tz ?eodm" and ?ed = "getDate tz ?eodm"
    have r: "addMonths tz t a = fromLocal tz (makeDay ?ey ?em ?d) ?ms"
      using False by (simp add: addMonths_def Let_def setFullYear_def)
    have "makeDay ?ey ?em ?ed = ?E"
      using makeDay_fields [of tz ?eodm] lE by simp
    then have "makeDay ?ey ?em ?d = ?E + (?d - ?ed)"
      using makeDay_day_shift [of ?ey ?em ?ed "?d - ?ed"] by simp
    then have "makeDay ?ey ?em ?d < ?L" using False EL by linarith
    then have "fromLocal tz (makeDay ?ey ?em ?d) ?ms < fromLocal tz ?L ?ms"
      by (simp add: fromLocal_less)
    then show ?thesis using r t by simp
  qed
qed

lemma getDateRange_ordered: "fst (getDateRange mode tz now) < snd (getDateRange mode tz now)"
proof (cases mode)
  case Week
  then show ?thesis using msPerDay_pos by (simp add: getDateRange_def subDays_def addDays_eq)
next
  case Month
  then show ?thesis using addMonths_before [of "- 1" tz now]
    by (simp add: getDateRange_def subMonths_def)
next
  case Year
  then show ?thesis using addMonths_before [of "- 12" tz now]
    by (simp add: getDateRange_def subYears_def addYears_def)
qed

lemma generateDateIntervals_preset:
  "\<exists>is. generateDateIntervals mode tz (fst (getDateRange mode tz now))
      (snd (getDateRange mode tz now)) = Inr is"
proof -
  have "fst (getDateRange mode tz now) \<le> snd (getDateRange mode tz now)"
    using getDateRange_ordered [of mode tz now] by simp
  then show ?thesis
    by (cases mode)
      (auto simp: generateDateIntervals_def eachDayOfInterval_eq eachMonthOfInterval_eq)
qed

lemma fetchSingleExerciseData_returns: "\<exists>st'. fetchSingleExerciseData tz now db st = Inr st'"
proof -
  obtain start "end" where r: "getDateRange (viewMode st) tz now = (start, end)"
    by (cases "getDateRange (viewMode st) tz now")
  from generateDateIntervals_preset [of "viewMode st" tz now] r
  obtain "is" where "generateDateIntervals (viewMode st) tz start end = Inr is" by auto
  with r show ?thesis
    by (simp add: fetchSingleExerciseData_def Let_def split: sum.splits)
qed

lemma fetchGroupData_returns: "\<exists>st'. fetchGroupData tz now db st = Inr st'"
proof -
  obtain start "end" where r: "getDateRange (viewMode st) tz now = (start, end)"
    by (cases "getDateRange (viewMode st) tz now")
  from generateDateIntervals_preset [of "viewMode st" tz now] r
  obtain "is" where "generateDateIntervals (viewMode st) tz start end = Inr is" by auto
  with r show ?thesis
    by (simp add: fetchGroupData_def Let_def split: sum.splits)
qed

text \<open>
  C9. An interval whose start is after its end makes the interval generator fail with the
  range error, in every view mode. The failure cannot happen in the view: for each of the
  three presets and every current moment and time zone the start of the window is before
  its end, and so every analysis (the single-exercise fetch, the group fetch and the
  Analyze click) returns a state and never the error.
\<close>

theorem C9_invalid_range_unreachable:
  "(end < start \<longrightarrow> generateDateIntervals mode tz start end = Inl RangeError) \<and>
   fst (getDateRange mode tz now) < snd (getDateRange mode tz now) \<and>
   (\<exists>st'. fetchSingleExerciseData tz now db st = Inr st') \<and>
   (\<exists>st'. fetchGroupData tz now db st = Inr st') \<and>
   (\<exists>st'. handleAnalyze tz now db st = Inr st')"
proof -
  have "end < start \<longrightarrow> generateDateIntervals mode tz start end = Inl RangeError"
    by (cases mode)
      (simp_all add: generateDateIntervals_def eachDayOfInterval_def eachMonthOfInterval_def)
  moreover have "\<exists>st'. handleAnalyze tz now db st = Inr st'"
    using fetchSingleExerciseData_returns [of tz now db st] fetchGroupData_returns [of tz now db st]
    by (simp add: handleAnalyze_def)
  ultimately show ?thesis
    using getDateRange_ordered [of mode tz now]
      fetchSingleExerciseData_returns [of tz now db st] fetchGroupData_returns [of tz now db st]
    by blast
qed

theorem C9_invalid_range_unreachable_witness:
  "(0::int) < 86400000 \<and> generateDateIntervals Year 0 86400000 0 = Inl RangeError"
  using C9_invalid_range_unreachable [of 0 86400000 Year 0] by simp

section \<open>A failing read\<close>

text \<open>
  C7. When the read of workout entries fails, the single-exercise fetch sends that one read
  and no other, shows one notification with the fixed text "Failed to load workout data"
  (the same whatever the error was), computes no chart records and leaves the displayed
  chart data as it was. The group fetch does the same when its read of workout entries
  fails, and when its read of the group's exercises fails it stops there: one read, the
  notification "Failed to load group exercises", no read of workout entries, chart data
  unchanged.
\<close>

theorem C7_failed_read_keeps_chart:
  "(selectedExercise st \<noteq> '''' \<and> isl (selectEntries db (singleQuery tz now st)) \<longrightarrow>
      (\<exists>st'. fetchSingleExerciseData tz now db st = Inr st' \<and>
         chartData st' = chartData st \<and>
         requests st' = requests st @ [WorkoutEntries (singleQuery tz now st)] \<and>
         toasts st' = toasts st @ [Toast ''Error'' ''Failed to load workout data'' ''destructive''] \<and>
         loading st' = False \<and>
         selectedExercise st' = selectedExercise st \<and> selectedGroup st' = selectedGroup st \<and>
         viewMode st' = viewMode st)) \<and>
   (selectedGroup st \<noteq> '''' \<and> isl (selectExercises db (selectedGroup st)) \<longrightarrow>
      (\<exists>st'. fetchGroupData tz now db st = Inr st' \<and>
         chartData st' = chartData st \<and>
         requests st' = requests st @ [ExercisesOfGroup (selectedGroup st)] \<and>
         toasts st' = toasts st @ [Toast ''Error'' ''Failed to load group exercises'' ''destructive''] \<and>
         loading st' = False \<and>
         selectedExercise st' = selectedExercise st \<and> selectedGroup st' = selectedGroup st \<and>
         viewMode st' = viewMode st)) \<and>
   (selectedGroup st \<noteq> '''' \<and> selectExercises db (selectedGroup st) = Inr groupExercises \<and>
      isl (selectEntries db (groupQuery tz now st groupExercises)) \<longrightarrow>
      (\<exists>st'. fetchGroupData tz now db st = Inr st' \<and>
         chartData st' = chartData st \<and>
         requests st' = requests st @ [ExercisesOfGroup (selectedGroup st),
                                       WorkoutEntries (groupQuery tz now st groupExercises)] \<and>
         toasts st' = toasts st @ [Toast ''Error'' ''Failed to load workout data'' ''destructive''] \<and>
         loading st' = False \<and>
         selectedExercise st' = selectedExercise st \<and> selectedGroup st' = selectedGroup st \<and>
         viewMode st' = viewMode st))"
proof (intro conjI impI)
  assume a: "selectedExercise st \<noteq> '''' \<and> isl (selectEntries db (singleQuery tz now st))"
  obtain start "end" where r: "getDateRange (viewMode st) tz now = (start, end)"
    by (cases "getDateRange (viewMode st) tz now")
  from a obtain e where "selectEntries db (singleQuery tz now st) = Inl e" by (metis isl_def)
  with a r show "\<exists>st'. fetchSingleExerciseData tz now db st = Inr st' \<and>
         chartData st' = chartData st \<and>
         requests st' = requests st @ [WorkoutEntries (singleQuery tz now st)] \<and>
         toasts st' = toasts st @ [Toast ''Error'' ''Failed to load workout data'' ''destructive''] \<and>
         loading st' = False \<and>
         selectedExercise st' = selectedExercise st \<and> selectedGroup st' = selectedGroup st \<and>
         viewMode st' = viewMode st"
    by (simp add: fetchSingleExerciseData_def failedToast_def singleQuery_def)
next
  assume a: "selectedGroup st \<noteq> '''' \<and> isl (selectExercises db (selectedGroup st))"
  then obtain e where "selectExercises db (selectedGroup st) = Inl e" by (metis isl_def)
  with a show "\<exists>st'. fetchGroupData tz now db st = Inr st' \<and>
         chartData st' = chartData st \<and>
         requests st' = requests st @ [ExercisesOfGroup (selectedGroup st)] \<and>
         toasts st' = toasts st @ [Toast ''Error'' ''Failed to load group exercises'' ''destructive''] \<and>
         loading st' = False \<and>
         selectedExercise st' = selectedExercise st \<and> selectedGroup st' = selectedGroup st \<and>
         viewMode st' = viewMode st"
    by (simp add: fetchGroupData_def failedToast_def split: prod.splits)
next
  assume a: "selectedGroup st \<noteq> '''' \<and> selectExercises db (selectedGroup st) = Inr groupExercises \<and>
      isl (selectEntries db (groupQuery tz now st groupExercises))"
  obtain start "end" where r: "getDateRange (viewMode st) tz now = (start, end)"
    by (cases "getDateRange (viewMode st) tz now")
  from a obtain e where "selectEntries db (groupQuery tz now st groupExercises) = Inl e"
    by (metis isl_def)
  with a r show "\<exists>st'. fetchGroupData tz now db st = Inr st' \<and>
         chartData st' = chartData st \<and>
         requests st' = requests st @ [ExercisesOfGroup (selectedGroup st),
                                       WorkoutEntries (groupQuery tz now st groupExercises)] \<and>
         toasts st' = toasts st @ [Toast ''Error'' ''Failed to load workout data'' ''destructive''] \<and>
         loading st' = False \<and>
         selectedExercise st' = selectedExercise st \<and> selectedGroup st' = selectedGroup st \<and>
         viewMode st' = viewMode st"
    by (simp add: fetchGroupData_def failedToast_def groupQuery_def)
qed

theorem C7_failed_read_keeps_chart_witness:
  "selectedExercise (exerciseChanged ''e1'' initialAnalytics) \<noteq> '''' \<and>
   isl (selectEntries failingDb (singleQuery 0 0 (exerciseChanged ''e1'' initialAnalytics))) \<and>
   (\<exists>st'. fetchSingleExerciseData 0 0 failingDb (exerciseChanged ''e1'' initialAnalytics) = Inr st' \<and>
      chartData st' = [] \<and>
      requests st' = [WorkoutEntries (singleQuery 0 0 (exerciseChanged ''e1'' initialAnalytics))] \<and>
      toasts st' = [Toast ''Error'' ''Failed to load workout data'' ''destructive'']) \<and>
   selectedGroup (groupChanged ''g1'' initialAnalytics) \<noteq> '''' \<and>
   isl (selectExercises failingDb (selectedGroup (groupChanged ''g1'' initialAnalytics))) \<and>
   (\<exists>st'. fetchGroupData 0 0 failingDb (groupChanged ''g1'' initialAnalytics) = Inr st' \<and>
      chartData st' = [] \<and> requests st' = [ExercisesOfGroup ''g1''] \<and>
      toasts st' = [Toast ''Error'' ''Failed to load group exercises'' ''destructive'']) \<and>
   selectExercises entriesFailingDb (selectedGroup (groupChanged ''g1'' initialAnalytics)) = Inr [] \<and>
   isl (selectEntries entriesFailingDb (groupQuery 0 0 (groupChanged ''g1'' initialAnalytics) [])) \<and>
   (\<exists>st'. fetchGroupData 0 0 entriesFailingDb (groupChanged ''g1'' initialAnalytics) = Inr st' \<and>
      chartData st' = [] \<and>
      requests st' = [ExercisesOfGroup ''g1'',
                      WorkoutEntries (groupQuery 0 0 (groupChanged ''g1'' initialAnalytics) [])] \<and>
      toasts st' = [Toast ''Error'' ''Failed to load workout data'' ''destructive''])"
proof -
  let ?s = "exerciseChanged ''e1'' initialAnalytics" and ?g = "groupChanged ''g1'' initialAnalytics"
  have h1: "selectedExercise ?s \<noteq> ''''" "isl (selectEntries failingDb (singleQuery 0 0 ?s))"
    by (simp_all add: exerciseChanged_def failingDb_def)
  have h2: "selectedGroup ?g \<noteq> ''''" "isl (selectExercises failingDb (selectedGroup ?g))"
    by (simp_all add: groupChanged_def failingDb_def)
  have i: "chartData ?s = []" "requests ?s = []" "toasts ?s = []"
    "chartData ?g = []" "requests ?g = []" "toasts ?g = []" "selectedGroup ?g = ''g1''"
    by (simp_all add: exerciseChanged_def groupChanged_def initialAnalytics_def)
  from C7_failed_read_keeps_chart [where st = "?s" and db = failingDb and tz = 0 and now = 0] h1 i
  have a: "\<exists>st'. fetchSingleExerciseData 0 0 failingDb ?s = Inr st' \<and>
      chartData st' = [] \<and> requests st' = [WorkoutEntries (singleQuery 0 0 ?s)] \<and>
      toasts st' = [Toast ''Error'' ''Failed to load workout data'' ''destructive'']"
    by auto
  from C7_failed_read_keeps_chart [where st = "?g" and db = failingDb and tz = 0 and now = 0] h2 i
  have b: "\<exists>st'. fetchGroupData 0 0 failingDb ?g = Inr st' \<and>
      chartData st' = [] \<and> requests st' = [ExercisesOfGroup ''g1''] \<and>
      toasts st' = [Toast ''Error'' ''Failed to load group exercises'' ''destructive'']"
    by auto
  have h3: "selectExercises entriesFailingDb (selectedGroup ?g) = Inr []"
    "isl (selectEntries entriesFailingDb (groupQuery 0 0 ?g []))"
    by (simp_all add: entriesFailingDb_def)
  from C7_failed_read_keeps_chart [where st = "?g" and db = entriesFailingDb and tz = 0 and now = 0
      and groupExercises = "[]"] h2(1) h3 i
  have c: "\<exists>st'. fetchGroupData 0 0 entriesFailingDb ?g = Inr st' \<and>
      chartData st' = [] \<and>
      requests st' = [ExercisesOfGroup ''g1'', WorkoutEntries (groupQuery 0 0 ?g [])] \<and>
      toasts st' = [Toast ''Error'' ''Failed to load workout data'' ''destructive'']"
    by auto
  from h1 h2 h3 a b c show ?thesis by (intro conjI)
qed

section \<open>The reads of workout entries\<close>

















section \<open>Sums that binary floating point adds without rounding\<close>







text \<open>
  Rounding at work: 0.1 is not a number and becomes the nearest one; above \<open>2 ^ 53\<close>
  odd integers are ties and go to the even significand.
\<close>

lemma fl_rounds:
  "fl (1 / 10) = Fin (3602879701896397 / 36028797018963968)"
  "fl 9007199254740993 = Fin 9007199254740992"
  "fl 9007199254740995 = Fin 9007199254740996"
  by code_simp+



lemma totalEffort_Nil: "totalEffort [] = Fin 0"
  by (simp add: totalEffort_def orZero_def)





section \<open>Keys and values of the chart records\<close>

lemma set_keyOrder: "set (keyOrder ks) = set ks"
  by (auto simp: keyOrder_def)


lemma keyOrder_filter: "filter P (keyOrder ks) = keyOrder (filter P ks)"
  by (simp add: keyOrder_def filter_sort conj_commute)

lemma date_no_index: "\<not> isArrayIndex ''date''"
  by (simp add: isArrayIndex_def isDigit_def)

lemma effort_no_index: "\<not> isArrayIndex ''effort''"
  by (simp add: isArrayIndex_def isDigit_def)

lemma keyOrder_date: "filter (\<lambda>key. key \<noteq> ''date'') (keyOrder (''date'' # ks)) = keyOrder (filter (\<lambda>key. key \<noteq> ''date'') ks)"
  by (simp add: keyOrder_filter)

section \<open>Matching entries to buckets\<close>

lemma entryMatches_day:
  "mode \<noteq> Year \<Longrightarrow> entryMatches mode tz i entry \<longleftrightarrow> dateText (workout_date entry) = dateValue i"
  by (simp add: entryMatches_def)

lemma localDay_newDate: "localDay tz (newDate n) = n + (tz * 60000) div msPerDay"
  using msPerDay_pos by (simp add: localDay_def newDate_def add.commute)

lemma entryMatches_month:
  "entryMatches Year tz i entry
     \<longleftrightarrow> monthText (monthIndex (workout_date entry + (tz * 60000) div msPerDay)) = dateValue i"
  by (simp add: entryMatches_def format_month_key localDay_newDate)

text \<open>
  East of Greenwich and at it (an offset from 0 to 23:59) the month key of an entry is
  the year and month of its date.
\<close>

lemma entryMatches_month_east:
  assumes "0 \<le> tz" and "tz < 1440"
  shows "entryMatches Year tz i entry
     \<longleftrightarrow> monthText (monthIndex (workout_date entry)) = dateValue i"
proof -
  have "(tz * 60000) div msPerDay = 0"
    using assms by (simp add: msPerDay_def)
  then show ?thesis by (simp add: entryMatches_month)
qed

lemma monthText_of_date:
  assumes "civil n = (y, m, d)"
  shows "monthText (monthIndex n) = Txt_yyyy_MM y (m + 1)"
  using civil_monthIndex(2,3) [OF assms] by (simp add: monthText_def)

lemma dateText_inj: "dateText a = dateText b \<Longrightarrow> a = b"
proof -
  assume e: "dateText a = dateText b"
  obtain y m d where ca: "civil a = (y, m, d)" by (metis prod_cases3)
  obtain y' m' d' where cb: "civil b = (y', m', d')" by (metis prod_cases3)
  from e ca cb have "civil a = civil b" by (simp add: dateText_def)
  then show "a = b" by (rule civil_inj)
qed


lemma monthText_inj: "monthText j = monthText k \<Longrightarrow> j = k"
proof -
  assume "monthText j = monthText k"
  then have "j div 12 = k div 12" "j mod 12 = k mod 12" by (simp_all add: monthText_def)
  then show "j = k" by (metis div_mult_mod_eq)
qed

lemma entryMatches_dayInterval:
  assumes "mode \<noteq> Year"
  shows "entryMatches mode tz (dayInterval tz (fromLocal tz k 0)) entry \<longleftrightarrow> workout_date entry = k"
  using dateText_inj [of "workout_date entry" k]
  by (auto simp: entryMatches_day [OF assms] dayInterval_key)

lemma entryMatches_monthInterval:
  assumes "0 \<le> tz" and "tz < 1440"
  shows "entryMatches Year tz (monthInterval tz (fromLocal tz (monthDay j) 0)) entry
     \<longleftrightarrow> monthIndex (workout_date entry) = j"
  using monthText_inj [of "monthIndex (workout_date entry)" j]
  by (auto simp: entryMatches_month_east [OF assms] monthInterval_key)

lemma dayInterval_filter:
  "mode \<noteq> Year \<Longrightarrow>
     entryMatches mode tz (dayInterval tz (fromLocal tz k 0)) = (\<lambda>e. workout_date e = k)"
  by (rule ext) (simp add: entryMatches_dayInterval)

lemma monthInterval_filter:
  "0 \<le> tz \<Longrightarrow> tz < 1440 \<Longrightarrow>
     entryMatches Year tz (monthInterval tz (fromLocal tz (monthDay j) 0))
       = (\<lambda>e. monthIndex (workout_date e) = j)"
  by (rule ext) (simp add: entryMatches_monthInterval)

text \<open>
  The \<open>k\<close>-th bucket of the generator is the \<open>k\<close>-th day, or month, from the start of the
  window, and the filter callback selects the entries of that bucket: with day
  granularity in every time zone, with month granularity at an offset from 0 to 23:59.
\<close>

lemma upto_nth_length:
  assumes "k < length [a..b]"
  shows "[a..b] ! k = a + int k"
proof -
  from assms have "a + int k \<le> b" by simp
  then show ?thesis by (rule nth_upto)
qed

lemma bucket_days:
  assumes "start \<le> end" and "mode \<noteq> Year"
    and "generateDateIntervals mode tz start end = Inr is" and "k < length is"
  shows "is ! k = dayInterval tz (fromLocal tz (localDay tz start + int k) 0)"
proof -
  have i: "is = map (\<lambda>k. dayInterval tz (fromLocal tz k 0)) [localDay tz start..localDay tz end]"
    using generateDateIntervals_days [OF assms(1,2), of tz] assms(3) by simp
  then have "k < length [localDay tz start..localDay tz end]" using assms(4) by simp
  from upto_nth_length [OF this] this show ?thesis by (simp add: i)
qed

lemma bucket_months:
  assumes "start \<le> end"
    and "generateDateIntervals Year tz start end = Inr is" and "k < length is"
  shows "is ! k = monthInterval tz (fromLocal tz (monthDay (monthIndex (localDay tz start) + int k)) 0)"
proof -
  have i: "is = map (\<lambda>j. monthInterval tz (fromLocal tz (monthDay j) 0))
      [monthIndex (localDay tz start)..monthIndex (localDay tz end)]"
    using generateDateIntervals_months [OF assms(1), of tz] assms(2) by simp
  then have "k < length [monthIndex (localDay tz start)..monthIndex (localDay tz end)]"
    using assms(3) by simp
  from upto_nth_length [OF this] this show ?thesis by (simp add: i)
qed

lemma bucket_key:
  assumes "start \<le> end" and "generateDateIntervals mode tz start end = Inr is" and "k < length is"
  shows "dateValue (is ! k) = bucketKey mode tz start k"
proof (cases "mode = Year")
  case True
  with bucket_months [OF assms(1) _ assms(3), of tz] assms(2) show ?thesis
    by (simp add: bucketKey_def monthInterval_key)
next
  case False
  with bucket_days [OF assms(1) False assms(2,3)] show ?thesis
    by (simp add: bucketKey_def dayInterval_key)
qed

lemma bucket_matches:
  assumes "start \<le> end" and "generateDateIntervals mode tz start end = Inr is" and "k < length is"
    and "mode = Year \<longrightarrow> 0 \<le> tz \<and> tz < 1440"
  shows "entryMatches mode tz (is ! k) = inBucket mode tz start k"
proof (cases "mode = Year")
  case True
  with assms(4) have tz: "0 \<le> tz" "tz < 1440" by simp_all
  from bucket_months [OF assms(1) _ assms(3), of tz] assms(2) True
  have "is ! k = monthInterval tz (fromLocal tz (monthDay (monthIndex (localDay tz start) + int k)) 0)"
    by simp
  then show ?thesis using True
    by (simp add: monthInterval_filter [OF tz] inBucket_def [abs_def])
next
  case False
  from bucket_days [OF assms(1) False assms(2,3)] False show ?thesis
    by (simp add: dayInterval_filter inBucket_def [abs_def])
qed

section \<open>The aggregation\<close>

lemma newSet_aux:
  "set (foldl (\<lambda>acc x. if x \<in> set acc then acc else acc @ [x]) acc xs) = set acc \<union> set xs \<and>
   (distinct acc \<longrightarrow> distinct (foldl (\<lambda>acc x. if x \<in> set acc then acc else acc @ [x]) acc xs))"
  by (induction xs arbitrary: acc) auto

lemma set_newSet: "set (newSet xs) = set xs"
  using newSet_aux [of "[]" xs] by (simp add: newSet_def)

lemma distinct_newSet: "distinct (newSet xs)"
  using newSet_aux [of "[]" xs] by (simp add: newSet_def)

lemma set_map_filter: "set (List.map_filter f xs) = {y. \<exists>x \<in> set xs. f x = Some y}"
  by (induction xs) (auto split: option.splits)

lemma set_exerciseNames:
  "set (exerciseNames data) = {n. n \<noteq> [] \<and> (\<exists>e \<in> set data. entryName e = Some n)}"
  by (auto simp: exerciseNames_def set_newSet set_map_filter)

lemma distinct_exerciseNames: "distinct (exerciseNames data)"
  by (simp add: exerciseNames_def distinct_newSet)

text \<open>Assigning a value to each of a list of keys of an object, in order.\<close>

lemma map_of_assign_all:
  "map_of (foldl (\<lambda>result n. AList.update n (v n) result) r ns) x
     = (if x \<in> set ns then Some (v x) else map_of r x)"
proof (induction ns arbitrary: r)
  case Nil
  show ?case by simp
next
  case (Cons n ns)
  show ?case by (auto simp: Cons.IH update_conv')
qed


lemma preset_intervals:
  "\<exists>is. generateDateIntervals mode tz (fst (getDateRange mode tz now))
      (snd (getDateRange mode tz now)) = Inr is \<and> is \<noteq> []"
proof -
  let ?s = "fst (getDateRange mode tz now)" and ?e = "snd (getDateRange mode tz now)"
  have le: "?s \<le> ?e" using getDateRange_ordered [of mode tz now] by simp
  show ?thesis
  proof (cases "mode = Year")
    case True
    have "monthIndex (localDay tz ?s) \<le> monthIndex (localDay tz ?e)"
      using le by (simp add: localDay_mono monthIndex_mono)
    then show ?thesis using True generateDateIntervals_months [OF le] by simp
  next
    case False
    have "localDay tz ?s \<le> localDay tz ?e" using le by (simp add: localDay_mono)
    then show ?thesis using generateDateIntervals_days [OF le False] by simp
  qed
qed

lemma filter_none: "(\<forall>e \<in> set data. \<not> P e) \<Longrightarrow> filter P data = []"
  by (induction data) auto

lemma exerciseNames_nonempty: "'''' \<notin> set (exerciseNames data)"
  by (simp add: set_exerciseNames)

text \<open>What the fetches of the first view compute when their reads succeed.\<close>

lemma fetchSingleExerciseData_success:
  assumes "selectedExercise st \<noteq> ''''" and "selectEntries db (singleQuery tz now st) = Inr data"
  shows "\<exists>st' is.
      fetchSingleExerciseData tz now db st = Inr st' \<and>
      generateDateIntervals (viewMode st) tz (fst (getDateRange (viewMode st) tz now))
        (snd (getDateRange (viewMode st) tz now)) = Inr is \<and> is \<noteq> [] \<and>
      requests st' = requests st @ [WorkoutEntries (singleQuery tz now st)] \<and>
      chartData st' = map (singleRecord (viewMode st) tz data) is"
proof -
  obtain start "end" where r: "getDateRange (viewMode st) tz now = (start, end)"
    by (cases "getDateRange (viewMode st) tz now")
  from preset_intervals [of "viewMode st" tz now] r
  obtain "is" where i: "generateDateIntervals (viewMode st) tz start end = Inr is" "is \<noteq> []"
    by auto
  from assms r i show ?thesis
    by (simp add: fetchSingleExerciseData_def singleQuery_def)
qed

lemma fetchGroupData_success:
  assumes "selectedGroup st \<noteq> ''''"
    and "selectExercises db (selectedGroup st) = Inr groupExercises"
    and "selectEntries db (groupQuery tz now st groupExercises) = Inr data"
  shows "\<exists>st' is.
      fetchGroupData tz now db st = Inr st' \<and>
      generateDateIntervals (viewMode st) tz (fst (getDateRange (viewMode st) tz now))
        (snd (getDateRange (viewMode st) tz now)) = Inr is \<and> is \<noteq> [] \<and>
      requests st' = requests st
        @ [ExercisesOfGroup (selectedGroup st), WorkoutEntries (groupQuery tz now st groupExercises)] \<and>
      chartData st' = map (groupRecord (viewMode st) tz data (exerciseNames data)) is"
proof -
  obtain start "end" where r: "getDateRange (viewMode st) tz now = (start, end)"
    by (cases "getDateRange (viewMode st) tz now")
  from preset_intervals [of "viewMode st" tz now] r
  obtain "is" where i: "generateDateIntervals (viewMode st) tz start end = Inr is" "is \<noteq> []"
    by auto
  from assms r i show ?thesis
    by (simp add: fetchGroupData_def groupQuery_def)
qed

text \<open>Assigning a value to each of a list of keys of an object, in order.\<close>

lemma setProp_fold:
  "foldl (\<lambda>result n. setProp n (v n) result) r ns
     = foldl (\<lambda>result n. AList.update n (v n) result) r (filter (\<lambda>n. n \<noteq> ''__proto__'') ns)"
  by (induction ns arbitrary: r) (simp_all add: setProp_def)

lemma keys_assign_order:
  assumes "distinct ns"
  shows "map fst (foldl (\<lambda>result n. AList.update n (v n) result) r ns)
     = map fst r @ filter (\<lambda>n. n \<notin> fst ` set r) ns"
  using assms
proof (induction ns arbitrary: r)
  case Nil
  show ?case by simp
next
  case (Cons n ns)
  have d: "distinct ns" and nn: "n \<notin> set ns" using Cons.prems by simp_all
  show ?case
  proof (cases "n \<in> fst ` set r")
    case True
    then have "map fst (AList.update n (v n) r) = map fst r" by (simp add: update_keys)
    moreover have "fst ` set (AList.update n (v n) r) = fst ` set r"
      using True by (auto simp: dom_update)
    ultimately show ?thesis using Cons.IH [OF d, of "AList.update n (v n) r"] True by simp
  next
    case False
    then have k: "map fst (AList.update n (v n) r) = map fst r @ [n]" by (simp add: update_keys)
    have s: "fst ` set (AList.update n (v n) r) = insert n (fst ` set r)"
      by (simp add: dom_update)
    have "filter (\<lambda>x. x \<notin> insert n (fst ` set r)) ns = filter (\<lambda>x. x \<notin> fst ` set r) ns"
      by (rule filter_cong) (use nn in auto)
    with Cons.IH [OF d, of "AList.update n (v n) r"] k s False show ?thesis by simp
  qed
qed

lemma getProp_own: "map_of obj key = Some v \<Longrightarrow> getProp obj key = v"
  by (simp add: getProp_def)

lemma singleRecord_fields:
  "ownKeys (singleRecord mode tz data i) = [''date'', ''effort'']"
  "getProp (singleRecord mode tz data i) ''date'' = Str (date i)"
  "getProp (singleRecord mode tz data i) ''effort''
     = Num (totalEffort (filter (entryMatches mode tz i) data))"
  by (simp_all add: singleRecord_def ownKeys_def keyOrder_def date_no_index effort_no_index
      getProp_def)

lemma groupRecord_assign:
  assumes "'''' \<notin> set names"
  shows "groupRecord mode tz data names i
    = foldl (\<lambda>result n. AList.update n
          (Num (totalEffort (filter (\<lambda>entry. entryName entry = Some n)
             (filter (entryMatches mode tz i) data)))) result)
        [(''date'', Str (date i))] (filter (\<lambda>n. n \<noteq> ''__proto__'') names)"
proof -
  have "groupRecord mode tz data names i
    = foldl (\<lambda>result n. setProp n
          (Num (totalEffort (filter (\<lambda>entry. entryName entry = Some n)
             (filter (entryMatches mode tz i) data)))) result)
        [(''date'', Str (date i))] names"
    unfolding groupRecord_def Let_def
    by (rule foldl_cong) (use assms in auto)
  then show ?thesis by (simp only: setProp_fold)
qed

lemma groupRecord_value:
  assumes "'''' \<notin> set names" and "n \<in> set names" and "n \<noteq> ''__proto__''"
  shows "getProp (groupRecord mode tz data names i) n
    = Num (totalEffort (filter (\<lambda>entry. entryName entry = Some n)
         (filter (entryMatches mode tz i) data)))"
  using assms by (intro getProp_own) (simp add: groupRecord_assign map_of_assign_all)


lemma filter_filter_names:
  "filter (\<lambda>n. n \<noteq> ''date'') (filter (\<lambda>n. n \<noteq> ''__proto__'') names)
     = filter (\<lambda>n. n \<noteq> ''date'' \<and> n \<noteq> ''__proto__'') names"
  by (simp add: conj_commute)

lemma groupRecord_ownKeys:
  assumes "'''' \<notin> set names" and "distinct names"
  shows "ownKeys (groupRecord mode tz data names i)
    = keyOrder (''date'' # filter (\<lambda>n. n \<noteq> ''date'' \<and> n \<noteq> ''__proto__'') names)"
proof -
  let ?v = "\<lambda>n. Num (totalEffort (filter (\<lambda>entry. entryName entry = Some n)
             (filter (entryMatches mode tz i) data)))"
  let ?ns = "filter (\<lambda>n. n \<noteq> ''__proto__'') names"
  have d: "distinct ?ns" using assms(2) by simp
  have "map fst (groupRecord mode tz data names i)
      = map fst (foldl (\<lambda>result n. AList.update n (?v n) result) [(''date'', Str (date i))] ?ns)"
    by (simp only: groupRecord_assign [OF assms(1)])
  also have "\<dots> = map fst [(''date'', Str (date i))]
      @ filter (\<lambda>n. n \<notin> fst ` set [(''date'', Str (date i))]) ?ns"
    by (rule keys_assign_order [OF d])
  also have "\<dots> = ''date'' # filter (\<lambda>n. n \<noteq> ''date'' \<and> n \<noteq> ''__proto__'') names"
    by (simp add: conj_commute)
  finally show ?thesis by (simp only: ownKeys_def)
qed

lemma seriesKeys_group:
  assumes "'''' \<notin> set names" and "distinct names" and "is \<noteq> []"
  shows "seriesKeys (map (groupRecord mode tz data names) is)
    = keyOrder (filter (\<lambda>n. n \<noteq> ''date'' \<and> n \<noteq> ''__proto__'') names)"
proof -
  from assms(3) obtain i rest where i: "is = i # rest" by (cases "is") auto
  have "filter (\<lambda>key. key \<noteq> ''date'') (filter (\<lambda>n. n \<noteq> ''date'' \<and> n \<noteq> ''__proto__'') names)
      = filter (\<lambda>n. n \<noteq> ''date'' \<and> n \<noteq> ''__proto__'') names"
    by (simp add: conj_commute conj_left_commute)
  then show ?thesis
    by (simp add: seriesKeys_def i groupRecord_ownKeys [OF assms(1,2)] keyOrder_date)
qed

text \<open>
  C1, as amended. In the first Analytics view, when the read succeeds, the chart data has
  exactly one record per bucket of the interval generator for the window and granularity
  of the view mode, in bucket order, whatever rows the read returned; the \<open>k\<close>-th bucket
  is the \<open>k\<close>-th day (week and month presets) or the \<open>k\<close>-th calendar month (year preset)
  from the start of the window. In single-exercise mode the record carries the bucket's
  label and a number as effort; in group mode it carries a number for every series of
  the chart. That number is 0 when no returned entry is dated in the bucket: with day
  granularity in every time zone, with month granularity at a local offset from UTC+0
  to UTC+23:59. The second Analytics view generates no buckets: its single-exercise
  chart has one record per fetched row.
\<close>

theorem C1_one_record_per_bucket:
  "(selectedExercise st \<noteq> '''' \<and> selectEntries db (singleQuery tz now st) = Inr data \<longrightarrow>
      (\<exists>st' is. fetchSingleExerciseData tz now db st = Inr st' \<and>
         generateDateIntervals (viewMode st) tz (fst (getDateRange (viewMode st) tz now))
           (snd (getDateRange (viewMode st) tz now)) = Inr is \<and>
         length (chartData st') = length is \<and>
         (\<forall>k < length is.
            dateValue (is ! k)
              = bucketKey (viewMode st) tz (fst (getDateRange (viewMode st) tz now)) k \<and>
            ownKeys (chartData st' ! k) = [''date'', ''effort''] \<and>
            getProp (chartData st' ! k) ''date'' = Str (date (is ! k)) \<and>
            (\<exists>x. getProp (chartData st' ! k) ''effort'' = Num x) \<and>
            ((viewMode st = Year \<longrightarrow> 0 \<le> tz \<and> tz < 1440) \<and>
             (\<forall>e \<in> set data.
                \<not> inBucket (viewMode st) tz (fst (getDateRange (viewMode st) tz now)) k e) \<longrightarrow>
               getProp (chartData st' ! k) ''effort'' = Num (Fin 0))))) \<and>
   (selectedGroup st \<noteq> '''' \<and> selectExercises db (selectedGroup st) = Inr groupExercises \<and>
    selectEntries db (groupQuery tz now st groupExercises) = Inr gdata \<longrightarrow>
      (\<exists>st' is. fetchGroupData tz now db st = Inr st' \<and>
         generateDateIntervals (viewMode st) tz (fst (getDateRange (viewMode st) tz now))
           (snd (getDateRange (viewMode st) tz now)) = Inr is \<and>
         length (chartData st') = length is \<and>
         (\<forall>k < length is.
            dateValue (is ! k)
              = bucketKey (viewMode st) tz (fst (getDateRange (viewMode st) tz now)) k \<and>
            (\<forall>n \<in> set (seriesKeys (chartData st')).
               (\<exists>x. getProp (chartData st' ! k) n = Num x) \<and>
               ((viewMode st = Year \<longrightarrow> 0 \<le> tz \<and> tz < 1440) \<and>
                (\<forall>e \<in> set gdata.
                   \<not> inBucket (viewMode st) tz (fst (getDateRange (viewMode st) tz now)) k e) \<longrightarrow>
                  getProp (chartData st' ! k) n = Num (Fin 0)))))) \<and>
   (selectedExercise2 st2 \<noteq> '''' \<and>
    selectEntries db \<lparr>filters = [Eq_exercise_id (selectedExercise2 st2)], order_workout_date = True\<rparr>
      = Inr data2 \<longrightarrow>
      (\<exists>st'. fetchSingleExerciseData2 db st2 = Inr st' \<and>
         length (singleExerciseData st') = length data2))"
proof (intro conjI impI)
  let ?S = "fst (getDateRange (viewMode st) tz now)" and ?E = "snd (getDateRange (viewMode st) tz now)"
  have le: "?S \<le> ?E" using getDateRange_ordered [of "viewMode st" tz now] by simp
  assume a: "selectedExercise st \<noteq> '''' \<and> selectEntries db (singleQuery tz now st) = Inr data"
  then obtain st' "is" where f: "fetchSingleExerciseData tz now db st = Inr st'"
    and g: "generateDateIntervals (viewMode st) tz ?S ?E = Inr is"
    and c: "chartData st' = map (singleRecord (viewMode st) tz data) is"
    using fetchSingleExerciseData_success [of st db tz now data] by blast
  have len: "length (chartData st') = length is" by (simp add: c)
  have recs: "\<forall>k < length is.
      dateValue (is ! k) = bucketKey (viewMode st) tz ?S k \<and>
      ownKeys (chartData st' ! k) = [''date'', ''effort''] \<and>
      getProp (chartData st' ! k) ''date'' = Str (date (is ! k)) \<and>
      (\<exists>x. getProp (chartData st' ! k) ''effort'' = Num x) \<and>
      ((viewMode st = Year \<longrightarrow> 0 \<le> tz \<and> tz < 1440) \<and>
       (\<forall>e \<in> set data. \<not> inBucket (viewMode st) tz ?S k e) \<longrightarrow>
         getProp (chartData st' ! k) ''effort'' = Num (Fin 0))"
  proof (intro allI impI)
    fix k assume k: "k < length is"
    have r: "chartData st' ! k = singleRecord (viewMode st) tz data (is ! k)"
      using k by (simp add: c)
    have z: "getProp (chartData st' ! k) ''effort'' = Num (Fin 0)"
      if "(viewMode st = Year \<longrightarrow> 0 \<le> tz \<and> tz < 1440) \<and>
        (\<forall>e \<in> set data. \<not> inBucket (viewMode st) tz ?S k e)"
    proof -
      from that have m: "entryMatches (viewMode st) tz (is ! k) = inBucket (viewMode st) tz ?S k"
        using bucket_matches [OF le g k] by simp
      from that have "filter (inBucket (viewMode st) tz ?S k) data = []"
        by (simp add: filter_none)
      then show ?thesis by (simp add: r singleRecord_fields m totalEffort_Nil)
    qed
    show "dateValue (is ! k) = bucketKey (viewMode st) tz ?S k \<and>
      ownKeys (chartData st' ! k) = [''date'', ''effort''] \<and>
      getProp (chartData st' ! k) ''date'' = Str (date (is ! k)) \<and>
      (\<exists>x. getProp (chartData st' ! k) ''effort'' = Num x) \<and>
      ((viewMode st = Year \<longrightarrow> 0 \<le> tz \<and> tz < 1440) \<and>
       (\<forall>e \<in> set data. \<not> inBucket (viewMode st) tz ?S k e) \<longrightarrow>
         getProp (chartData st' ! k) ''effort'' = Num (Fin 0))"
      using bucket_key [OF le g k] z by (simp add: r singleRecord_fields)
  qed
  show "\<exists>st' is. fetchSingleExerciseData tz now db st = Inr st' \<and>
         generateDateIntervals (viewMode st) tz ?S ?E = Inr is \<and>
         length (chartData st') = length is \<and>
         (\<forall>k < length is.
            dateValue (is ! k) = bucketKey (viewMode st) tz ?S k \<and>
            ownKeys (chartData st' ! k) = [''date'', ''effort''] \<and>
            getProp (chartData st' ! k) ''date'' = Str (date (is ! k)) \<and>
            (\<exists>x. getProp (chartData st' ! k) ''effort'' = Num x) \<and>
            ((viewMode st = Year \<longrightarrow> 0 \<le> tz \<and> tz < 1440) \<and>
             (\<forall>e \<in> set data. \<not> inBucket (viewMode st) tz ?S k e) \<longrightarrow>
               getProp (chartData st' ! k) ''effort'' = Num (Fin 0)))"
    by (intro exI [of _ st'] exI [of _ "is"] conjI f g len recs)
next
  let ?S = "fst (getDateRange (viewMode st) tz now)" and ?E = "snd (getDateRange (viewMode st) tz now)"
  have le: "?S \<le> ?E" using getDateRange_ordered [of "viewMode st" tz now] by simp
  assume a: "selectedGroup st \<noteq> '''' \<and> selectExercises db (selectedGroup st) = Inr groupExercises \<and>
    selectEntries db (groupQuery tz now st groupExercises) = Inr gdata"
  then obtain st' "is" where f: "fetchGroupData tz now db st = Inr st'"
    and g: "generateDateIntervals (viewMode st) tz ?S ?E = Inr is"
    and ne: "is \<noteq> []"
    and c: "chartData st' = map (groupRecord (viewMode st) tz gdata (exerciseNames gdata)) is"
    using fetchGroupData_success [of st db groupExercises tz now gdata] by blast
  have len: "length (chartData st') = length is" by (simp add: c)
  have sk: "seriesKeys (chartData st')
      = keyOrder (filter (\<lambda>n. n \<noteq> ''date'' \<and> n \<noteq> ''__proto__'') (exerciseNames gdata))"
    unfolding c by (rule seriesKeys_group [OF exerciseNames_nonempty distinct_exerciseNames ne])
  have recs: "\<forall>k < length is.
      dateValue (is ! k) = bucketKey (viewMode st) tz ?S k \<and>
      (\<forall>n \<in> set (seriesKeys (chartData st')).
         (\<exists>x. getProp (chartData st' ! k) n = Num x) \<and>
         ((viewMode st = Year \<longrightarrow> 0 \<le> tz \<and> tz < 1440) \<and>
          (\<forall>e \<in> set gdata. \<not> inBucket (viewMode st) tz ?S k e) \<longrightarrow>
            getProp (chartData st' ! k) n = Num (Fin 0)))"
  proof (intro allI impI conjI ballI)
    fix k assume k: "k < length is"
    show "dateValue (is ! k) = bucketKey (viewMode st) tz ?S k" by (rule bucket_key [OF le g k])
    fix n assume "n \<in> set (seriesKeys (chartData st'))"
    then have n: "n \<in> set (exerciseNames gdata)" "n \<noteq> ''__proto__''"
      by (simp_all add: sk set_keyOrder)
    have r: "getProp (chartData st' ! k) n
        = Num (totalEffort (filter (\<lambda>entry. entryName entry = Some n)
            (filter (entryMatches (viewMode st) tz (is ! k)) gdata)))"
      using k groupRecord_value [OF exerciseNames_nonempty n] by (simp add: c)
    then show "\<exists>x. getProp (chartData st' ! k) n = Num x" by blast
    assume z: "(viewMode st = Year \<longrightarrow> 0 \<le> tz \<and> tz < 1440) \<and>
      (\<forall>e \<in> set gdata. \<not> inBucket (viewMode st) tz ?S k e)"
    then have m: "entryMatches (viewMode st) tz (is ! k) = inBucket (viewMode st) tz ?S k"
      using bucket_matches [OF le g k] by simp
    from z have "filter (inBucket (viewMode st) tz ?S k) gdata = []"
      by (simp add: filter_none)
    then show "getProp (chartData st' ! k) n = Num (Fin 0)"
      by (simp add: r m totalEffort_Nil)
  qed
  show "\<exists>st' is. fetchGroupData tz now db st = Inr st' \<and>
         generateDateIntervals (viewMode st) tz ?S ?E = Inr is \<and>
         length (chartData st') = length is \<and>
         (\<forall>k < length is.
            dateValue (is ! k) = bucketKey (viewMode st) tz ?S k \<and>
            (\<forall>n \<in> set (seriesKeys (chartData st')).
               (\<exists>x. getProp (chartData st' ! k) n = Num x) \<and>
               ((viewMode st = Year \<longrightarrow> 0 \<le> tz \<and> tz < 1440) \<and>
                (\<forall>e \<in> set gdata. \<not> inBucket (viewMode st) tz ?S k e) \<longrightarrow>
                  getProp (chartData st' ! k) n = Num (Fin 0))))"
    by (intro exI [of _ st'] exI [of _ "is"] conjI f g len recs)
next
  assume "selectedExercise2 st2 \<noteq> '''' \<and>
    selectEntries db \<lparr>filters = [Eq_exercise_id (selectedExercise2 st2)], order_workout_date = True\<rparr>
      = Inr data2"
  then show "\<exists>st'. fetchSingleExerciseData2 db st2 = Inr st' \<and>
         length (singleExerciseData st') = length data2"
    by (simp add: fetchSingleExerciseData2_def)
qed

text \<open>
  The claim as stated fails in the second view: for the Squat it hands the chart 2
  records, the number of rows, while the interval generator gives 8 buckets for the week
  window at the same moment.
\<close>

theorem C1_counterexample:
  "length (singleExerciseData (projr (fetchSingleExerciseData2 (storeDb gymStore)
       (initialAnalytics2\<lparr>selectedExercise2 := ''e1'', timeframe := ''week''\<rparr>)))) = 2 \<and>
   length (projr (selectEntries (storeDb gymStore)
       \<lparr>filters = [Eq_exercise_id ''e1''], order_workout_date = True\<rparr>)) = 2 \<and>
   length (projr (generateDateIntervals Week 0 (fst (getDateRange Week 0 noon))
       (snd (getDateRange Week 0 noon)))) = 8"
proof -
  let ?q = "\<lparr>filters = [Eq_exercise_id ''e1''], order_workout_date = True\<rparr>"
  have q: "selectEntries (storeDb gymStore) ?q
      = Inr [\<lparr>workout_date = 18262, effort = 80000, weight_kg = 8000, reps = 10,
               exercises = Some squat\<rparr>,
             \<lparr>workout_date = 19782, effort = 50000, weight_kg = 10000, reps = 5,
               exercises = Some squat\<rparr>]"
    by code_simp
  have "length (singleExerciseData (projr (fetchSingleExerciseData2 (storeDb gymStore)
       (initialAnalytics2\<lparr>selectedExercise2 := ''e1'', timeframe := ''week''\<rparr>)))) = 2"
    by (simp add: fetchSingleExerciseData2_def q)
  moreover have "length (projr (selectEntries (storeDb gymStore) ?q)) = 2"
    by (simp add: q)
  moreover have "length (projr (generateDateIntervals Week 0 (fst (getDateRange Week 0 noon))
       (snd (getDateRange Week 0 noon)))) = 8"
    by code_simp
  ultimately show ?thesis by (intro conjI)
qed

theorem C1_one_record_per_bucket_witness:
  "selectedExercise (exerciseChanged ''e1'' initialAnalytics) \<noteq> '''' \<and>
   selectEntries (storeDb gymStore) (singleQuery 0 noon (exerciseChanged ''e1'' initialAnalytics))
     = Inr [\<lparr>workout_date = 19782, effort = 50000, weight_kg = 10000, reps = 5,
             exercises = Some squat\<rparr>] \<and>
   (\<exists>st'. fetchSingleExerciseData 0 noon (storeDb gymStore)
            (exerciseChanged ''e1'' initialAnalytics) = Inr st' \<and>
      length (chartData st') = 8 \<and>
      ownKeys (chartData st' ! 0) = [''date'', ''effort''] \<and>
      getProp (chartData st' ! 0) ''effort'' = Num (Fin 0)) \<and>
   selectedGroup (groupChanged ''g1'' initialAnalytics) \<noteq> '''' \<and>
   selectExercises (storeDb gymStore) (selectedGroup (groupChanged ''g1'' initialAnalytics))
     = Inr [squat, legPress] \<and>
   selectEntries (storeDb gymStore)
       (groupQuery 0 noon (groupChanged ''g1'' initialAnalytics) [squat, legPress])
     = Inr [\<lparr>workout_date = 19782, effort = 50000, weight_kg = 10000, reps = 5,
             exercises = Some squat\<rparr>,
            \<lparr>workout_date = 19782, effort = 72000, weight_kg = 6000, reps = 12,
             exercises = Some legPress\<rparr>] \<and>
   (\<exists>st'. fetchGroupData 0 noon (storeDb gymStore) (groupChanged ''g1'' initialAnalytics) = Inr st' \<and>
      length (chartData st') = 8 \<and>
      (\<forall>n \<in> set (seriesKeys (chartData st')). getProp (chartData st' ! 0) n = Num (Fin 0))) \<and>
   selectedExercise2 (initialAnalytics2\<lparr>selectedExercise2 := ''e1''\<rparr>) \<noteq> '''' \<and>
   selectEntries (storeDb gymStore)
       \<lparr>filters = [Eq_exercise_id (selectedExercise2 (initialAnalytics2\<lparr>selectedExercise2 := ''e1''\<rparr>))],
        order_workout_date = True\<rparr>
     = Inr [\<lparr>workout_date = 18262, effort = 80000, weight_kg = 8000, reps = 10,
             exercises = Some squat\<rparr>,
            \<lparr>workout_date = 19782, effort = 50000, weight_kg = 10000, reps = 5,
             exercises = Some squat\<rparr>] \<and>
   (\<exists>st'. fetchSingleExerciseData2 (storeDb gymStore)
            (initialAnalytics2\<lparr>selectedExercise2 := ''e1''\<rparr>) = Inr st' \<and>
      length (singleExerciseData st') = 2)"
proof -
  let ?a = "exerciseChanged ''e1'' initialAnalytics" and ?b = "groupChanged ''g1'' initialAnalytics"
  let ?c = "initialAnalytics2\<lparr>selectedExercise2 := ''e1''\<rparr>"
  let ?r1 = "\<lparr>workout_date = 19782, effort = 50000, weight_kg = 10000, reps = 5,
             exercises = Some squat\<rparr>"
  let ?r2 = "\<lparr>workout_date = 19782, effort = 72000, weight_kg = 6000, reps = 12,
             exercises = Some legPress\<rparr>"
  let ?r0 = "\<lparr>workout_date = 18262, effort = 80000, weight_kg = 8000, reps = 10,
             exercises = Some squat\<rparr>"
  let ?g = "generateDateIntervals Week 0 (fst (getDateRange Week 0 noon))
      (snd (getDateRange Week 0 noon))"
  have vm: "viewMode ?a = Week" "viewMode ?b = Week"
    by (simp_all add: exerciseChanged_def groupChanged_def initialAnalytics_def)
  have h1: "selectedExercise ?a \<noteq> ''''" by (simp add: exerciseChanged_def)
  have d1: "selectEntries (storeDb gymStore) (singleQuery 0 noon ?a) = Inr [?r1]" by code_simp
  have h2: "selectedGroup ?b \<noteq> ''''" by (simp add: groupChanged_def)
  have e2: "selectExercises (storeDb gymStore) (selectedGroup ?b) = Inr [squat, legPress]"
    by code_simp
  have d2: "selectEntries (storeDb gymStore) (groupQuery 0 noon ?b [squat, legPress])
      = Inr [?r1, ?r2]"
    by code_simp
  have h3: "selectedExercise2 ?c \<noteq> ''''" by simp
  have d3: "selectEntries (storeDb gymStore)
      \<lparr>filters = [Eq_exercise_id (selectedExercise2 ?c)], order_workout_date = True\<rparr>
      = Inr [?r0, ?r1]"
    by code_simp
  have g: "?g = Inr (projr ?g)" by code_simp
  have len: "length (projr ?g) = 8" by code_simp
  have out: "list_all (\<lambda>e. \<not> inBucket Week 0 (fst (getDateRange Week 0 noon)) 0 e) [?r1, ?r2]"
    by code_simp
  then have o1: "\<forall>e \<in> set [?r1]. \<not> inBucket Week 0 (fst (getDateRange Week 0 noon)) 0 e"
    and o2: "\<forall>e \<in> set [?r1, ?r2]. \<not> inBucket Week 0 (fst (getDateRange Week 0 noon)) 0 e"
    by simp_all
  note t = C1_one_record_per_bucket
  from t [where st = "?a" and db = "storeDb gymStore" and tz = 0 and now = noon and data = "[?r1]",
      THEN conjunct1, THEN mp, OF conjI [OF h1 d1]]
  obtain st' "is" where a: "fetchSingleExerciseData 0 noon (storeDb gymStore) ?a = Inr st'"
    "generateDateIntervals (viewMode ?a) 0 (fst (getDateRange (viewMode ?a) 0 noon))
       (snd (getDateRange (viewMode ?a) 0 noon)) = Inr is"
    "length (chartData st') = length is"
    "\<forall>k < length is.
       dateValue (is ! k) = bucketKey (viewMode ?a) 0 (fst (getDateRange (viewMode ?a) 0 noon)) k \<and>
       ownKeys (chartData st' ! k) = [''date'', ''effort''] \<and>
       getProp (chartData st' ! k) ''date'' = Str (date (is ! k)) \<and>
       (\<exists>x. getProp (chartData st' ! k) ''effort'' = Num x) \<and>
       ((viewMode ?a = Year \<longrightarrow> (0::int) \<le> 0 \<and> (0::int) < 1440) \<and>
        (\<forall>e \<in> set [?r1].
           \<not> inBucket (viewMode ?a) 0 (fst (getDateRange (viewMode ?a) 0 noon)) k e) \<longrightarrow>
          getProp (chartData st' ! k) ''effort'' = Num (Fin 0))"
    by (elim exE conjE) (rule that)
  from a(2) g have i: "is = projr ?g" by (simp only: vm) simp
  have k0: "0 < length is" by (simp add: i len)
  from a(4) [THEN spec, of 0, THEN mp, OF k0] o1
  have "ownKeys (chartData st' ! 0) = [''date'', ''effort'']"
    "getProp (chartData st' ! 0) ''effort'' = Num (Fin 0)"
    by (simp_all add: vm)
  with a(1,3) i len have A: "\<exists>st'. fetchSingleExerciseData 0 noon (storeDb gymStore) ?a = Inr st' \<and>
      length (chartData st') = 8 \<and>
      ownKeys (chartData st' ! 0) = [''date'', ''effort''] \<and>
      getProp (chartData st' ! 0) ''effort'' = Num (Fin 0)"
    by simp
  from t [where st = "?b" and db = "storeDb gymStore" and tz = 0 and now = noon
      and groupExercises = "[squat, legPress]" and gdata = "[?r1, ?r2]",
      THEN conjunct2, THEN conjunct1, THEN mp, OF conjI [OF h2 conjI [OF e2 d2]]]
  obtain st2 is2 where b: "fetchGroupData 0 noon (storeDb gymStore) ?b = Inr st2"
    "generateDateIntervals (viewMode ?b) 0 (fst (getDateRange (viewMode ?b) 0 noon))
       (snd (getDateRange (viewMode ?b) 0 noon)) = Inr is2"
    "length (chartData st2) = length is2"
    "\<forall>k < length is2.
       dateValue (is2 ! k) = bucketKey (viewMode ?b) 0 (fst (getDateRange (viewMode ?b) 0 noon)) k \<and>
       (\<forall>n \<in> set (seriesKeys (chartData st2)).
          (\<exists>x. getProp (chartData st2 ! k) n = Num x) \<and>
          ((viewMode ?b = Year \<longrightarrow> (0::int) \<le> 0 \<and> (0::int) < 1440) \<and>
           (\<forall>e \<in> set [?r1, ?r2].
              \<not> inBucket (viewMode ?b) 0 (fst (getDateRange (viewMode ?b) 0 noon)) k e) \<longrightarrow>
             getProp (chartData st2 ! k) n = Num (Fin 0)))"
    by (elim exE conjE) (rule that)
  from b(2) g have i2: "is2 = projr ?g" by (simp only: vm) simp
  have k2: "0 < length is2" by (simp add: i2 len)
  from b(4) [THEN spec, of 0, THEN mp, OF k2] o2
  have "\<forall>n \<in> set (seriesKeys (chartData st2)). getProp (chartData st2 ! 0) n = Num (Fin 0)"
    by (simp add: vm)
  with b(1,3) i2 len have B: "\<exists>st'. fetchGroupData 0 noon (storeDb gymStore) ?b = Inr st' \<and>
      length (chartData st') = 8 \<and>
      (\<forall>n \<in> set (seriesKeys (chartData st')). getProp (chartData st' ! 0) n = Num (Fin 0))"
    by simp
  from t [where ?st2.0 = "?c" and db = "storeDb gymStore" and ?data2.0 = "[?r0, ?r1]",
      THEN conjunct2, THEN conjunct2, THEN mp, OF conjI [OF h3 d3]]
  have C: "\<exists>st'. fetchSingleExerciseData2 (storeDb gymStore) ?c = Inr st' \<and>
      length (singleExerciseData st') = 2"
    by (simp add: numeral_2_eq_2)
  show ?thesis by (intro conjI h1 d1 A h2 e2 d2 B h3 d3 C)
qed

section \<open>The records of the second view's group chart\<close>









section \<open>The total of the returned efforts\<close>










text \<open>
  The rows that a store answering from its tables returns for a range-filtered read are
  dated within the window, and their effort is weight times repetitions.
\<close>

lemma rangeRead_rows:
  "\<forall>e \<in> set (rangeRead s P tz start end).
     inWindow tz start end e \<and> effort e = weight_kg e * reps e"
  by (auto simp: rangeRead_def rowOf_def inWindow_def)




section \<open>The month key west of Greenwich\<close>

text \<open>
  C8 at a failing input. In a browser five hours behind UTC (offset -300), with month
  granularity, the entry dated 2024-03-01 (day 19783) is matched to the bucket of
  February 2024 and not to the bucket of March 2024: its date text is read as midnight
  UTC, which is 19:00 of 2024-02-29 local time, and the month key is formatted from that.
\<close>

theorem C8_month_key_west_of_utc:
  "dateText 19783 = Txt_yyyy_MM_dd 2024 3 1 \<and>
   format (- 300) (newDate 19783) Pat_yyyy_MM = Txt_yyyy_MM 2024 2 \<and>
   entryMatches Year (- 300) \<lparr>date = Txt_MMM_yyyy 2 2024, dateValue = Txt_yyyy_MM 2024 2\<rparr>
     \<lparr>workout_date = 19783, effort = 80000, weight_kg = 8000, reps = 10, exercises = Some squat\<rparr> \<and>
   \<not> entryMatches Year (- 300) \<lparr>date = Txt_MMM_yyyy 3 2024, dateValue = Txt_yyyy_MM 2024 3\<rparr>
     \<lparr>workout_date = 19783, effort = 80000, weight_kg = 8000, reps = 10, exercises = Some squat\<rparr>"
  by code_simp

text \<open>
  The same defect loses an entry of the window: at noon local time of 2024-03-01 in that
  browser (17:00 UTC) the year window starts on 2023-03-01 (day 19417); the read returns
  the entry of that day, 80 kg x 10, and all 13 returned efforts are 0.
\<close>

lemma year_total_west_of_utc:
  "selectEntries
     (storeDb \<lparr>tbl_exercises = [squat], tbl_workout_entries =
        [\<lparr>we_exercise_id = ''e1'', we_weight_kg = 8000, we_reps = 10, we_workout_date = 19417\<rparr>]\<rparr>)
     (singleQuery (- 300) (19783 * 86400000 + 61200000)
        ((exerciseChanged ''e1'' initialAnalytics)\<lparr>viewMode := Year\<rparr>))
     = Inr [\<lparr>workout_date = 19417, effort = 80000, weight_kg = 8000, reps = 10,
             exercises = Some squat\<rparr>] \<and>
   map (\<lambda>r. getProp r ''effort'')
     (chartData (projr (fetchSingleExerciseData (- 300) (19783 * 86400000 + 61200000)
       (storeDb \<lparr>tbl_exercises = [squat], tbl_workout_entries =
          [\<lparr>we_exercise_id = ''e1'', we_weight_kg = 8000, we_reps = 10, we_workout_date = 19417\<rparr>]\<rparr>)
       ((exerciseChanged ''e1'' initialAnalytics)\<lparr>viewMode := Year\<rparr>))))
     = replicate 13 (Num (Fin 0))"
  by code_simp

text \<open>
  An entry dated outside the generated interval matches no bucket (with month granularity,
  for offsets from UTC+0 up: an entry outside the months of the interval); nothing fails,
  the filter just leaves it out.
\<close>

lemma outside_entry_in_no_day_bucket:
  assumes "mode \<noteq> Year" and "start \<le> end"
    and "generateDateIntervals mode tz start end = Inr is"
    and "\<not> inWindow tz start end entry"
  shows "\<forall>i \<in> set is. \<not> entryMatches mode tz i entry"
proof -
  have "is = map (\<lambda>k. dayInterval tz (fromLocal tz k 0)) [localDay tz start..localDay tz end]"
    using generateDateIntervals_days [OF assms(2,1), of tz] assms(3) by simp
  then show ?thesis
    using assms(4) by (auto simp: entryMatches_dayInterval [OF assms(1)] inWindow_def)
qed

lemma outside_entry_in_no_month_bucket:
  assumes "0 \<le> tz" and "tz < 1440" and "start \<le> end"
    and "generateDateIntervals Year tz start end = Inr is"
    and "\<not> inWindowMonths tz start end entry"
  shows "\<forall>i \<in> set is. \<not> entryMatches Year tz i entry"
proof -
  have "is = map (\<lambda>j. monthInterval tz (fromLocal tz (monthDay j) 0))
      [monthIndex (localDay tz start)..monthIndex (localDay tz end)]"
    using generateDateIntervals_months [OF assms(3), of tz] assms(4) by simp
  then show ?thesis
    using assms(5) by (auto simp: entryMatches_monthInterval [OF assms(1,2)] inWindowMonths_def)
qed

end
